theory Spec2Isabelle
  imports Complex_Main "HOL-Library.Sublist" "HOL-Library.Log_Nat"
begin

section \<open>JavaScript strings\<close>

text \<open>
  A JavaScript string is a sequence of UTF-16 code units. The model uses \<^typ>\<open>string\<close>
  and reads each \<^typ>\<open>char\<close> as a code unit below 256 (the Latin-1 range), which
  covers the SQL text, the column names and the cell values the program handles.
  \<open>String.prototype.toLowerCase\<close>, the regular-expression classes \<open>\s\<close>, \<open>\w\<close>,
  \<open>\d\<close> and \<open>.\<close>, and \<open>String.prototype.trim\<close> are written out for that range.
\<close>

definition toLowerCase_char :: "char \<Rightarrow> char" where
  "toLowerCase_char c =
     (let n = (of_char c :: nat)
      in if (65 \<le> n \<and> n \<le> 90) \<or> (192 \<le> n \<and> n \<le> 222 \<and> n \<noteq> 215)
         then char_of (n + 32) else c)"

definition toLowerCase :: "string \<Rightarrow> string" where
  "toLowerCase s = map toLowerCase_char s"

text \<open>\<open>\s\<close>: tab, line feed, vertical tab, form feed, carriage return, space, no-break space.\<close>

definition is_space :: "char \<Rightarrow> bool" where
  "is_space c = ((of_char c :: nat) \<in> {9, 10, 11, 12, 13, 32, 160})"

text \<open>The line terminators, which \<open>.\<close> does not match.\<close>

definition is_line_terminator :: "char \<Rightarrow> bool" where
  "is_line_terminator c = ((of_char c :: nat) \<in> {10, 13})"

definition is_digit :: "char \<Rightarrow> bool" where
  "is_digit c = (let n = (of_char c :: nat) in 48 \<le> n \<and> n \<le> 57)"

text \<open>\<open>\w\<close>: letters, digits and the underscore.\<close>

definition is_word :: "char \<Rightarrow> bool" where
  "is_word c =
     (let n = (of_char c :: nat)
      in (48 \<le> n \<and> n \<le> 57) \<or> (65 \<le> n \<and> n \<le> 90) \<or> (97 \<le> n \<and> n \<le> 122) \<or> n = 95)"

text \<open>\<open>s.includes(k)\<close>, \<open>s.startsWith(k)\<close> and \<open>s.trim()\<close>.\<close>

definition includesStr :: "string \<Rightarrow> string \<Rightarrow> bool" where
  "includesStr s k = sublist k s"

definition startsWith :: "string \<Rightarrow> string \<Rightarrow> bool" where
  "startsWith s k = prefix k s"

definition trimStart :: "string \<Rightarrow> string" where
  "trimStart s = dropWhile is_space s"

definition trimEnd :: "string \<Rightarrow> string" where
  "trimEnd s = rev (dropWhile is_space (rev s))"

definition trim :: "string \<Rightarrow> string" where
  "trim s = trimEnd (trimStart s)"

text \<open>The double quote and the single quote, named for use inside terms.\<close>

abbreviation dquote :: char where
  "dquote \<equiv> CHR 0x22"

abbreviation squote :: char where
  "squote \<equiv> CHR 0x27"

datatype js_error = Error string | TypeError string | SyntaxError string

section \<open>The pre-execution check of the query controller\<close>

text \<open>
  \<open>validateSqlQuery\<close> of the query controller returns \<open>{valid, message}\<close>; a valid
  result carries no message.
\<close>

record validation =
  valid :: bool
  message :: "string option"

definition dangerousKeywords :: "string list" where
  "dangerousKeywords =
     [''insert'', ''update'', ''delete'', ''drop'', ''alter'', ''create'',
      ''truncate'', ''exec'', ''execute'', ''union'', ''--'']"

definition hasInjectionAttempt :: "string \<Rightarrow> bool" where
  "hasInjectionAttempt sqlQuery =
     list_ex (\<lambda>keyword. includesStr (toLowerCase sqlQuery) keyword) dangerousKeywords"

definition validateSqlQuery :: "string \<Rightarrow> validation" where
  "validateSqlQuery sqlQuery =
     (if \<not> startsWith (toLowerCase (trim sqlQuery)) ''select''
      then \<lparr>valid = False, message = Some ''Only SELECT queries are allowed''\<rparr>
      else if hasInjectionAttempt sqlQuery
      then \<lparr>valid = False, message = Some ''Query contains disallowed SQL keywords''\<rparr>
      else if includesStr sqlQuery (''_FROM'' @ [dquote]) \<or> includesStr sqlQuery (dquote # ''FROM'')
      then \<lparr>valid = False, message = Some ''Query contains syntax error with FROM clause''\<rparr>
      else if \<not> includesStr (toLowerCase sqlQuery) ''from''
      then \<lparr>valid = False, message = Some ''Query is missing FROM clause''\<rparr>
      else \<lparr>valid = True, message = None\<rparr>)"

text \<open>
  \<open>sqlQuery.replace(/"\_(.*?)"/g, '"$1"')\<close>: at a double quote followed by an
  underscore, the lazy group runs to the next double quote and must not cross a line
  terminator; the underscore is dropped and the scan goes on after the closing quote.
\<close>

function fixUnderscoreInQuotes :: "string \<Rightarrow> string" where
  "fixUnderscoreInQuotes [] = []"
| "fixUnderscoreInQuotes (c # cs) =
     (case cs of
        u # r \<Rightarrow>
          (let body = takeWhile (\<lambda>x. x \<noteq> dquote) r;
               rest = dropWhile (\<lambda>x. x \<noteq> dquote) r
           in if c = dquote \<and> u = CHR ''_'' \<and> rest \<noteq> [] \<and> \<not> list_ex is_line_terminator body
              then dquote # body @ dquote # fixUnderscoreInQuotes (tl rest)
              else c # fixUnderscoreInQuotes cs)
      | [] \<Rightarrow> [c])"
  by pat_completeness auto
termination
proof (relation "measure length", goal_cases)
  case 1
  show ?case by simp
next
  case (2 c cs u r body rest)
  have "length (dropWhile (\<lambda>x. x \<noteq> dquote) r) \<le> length r"
    by (rule length_dropWhile_le)
  then have "length (tl (dropWhile (\<lambda>x. x \<noteq> dquote) r)) \<le> length r"
    by simp
  with 2 show ?case by simp
next
  case 3
  then show ?case by simp
qed

text \<open>\<open>sqlQuery.replace(/;+$/, '')\<close>: the semicolons that end the string.\<close>

definition stripTrailingSemicolons :: "string \<Rightarrow> string" where
  "stripTrailingSemicolons s = rev (dropWhile (\<lambda>x. x = CHR '';'') (rev s))"

text \<open>
  \<open>safeExecuteQuery\<close> hands a statement to \<open>pool.query\<close> only after the check. The
  pool is a parameter; the result pairs the statements that reached the pool with the
  outcome (the \<open>catch\<close> block logs and rethrows, so an error is returned as it is).
\<close>

definition prepareQuery :: "string \<Rightarrow> string" where
  "prepareQuery sqlQuery =
     stripTrailingSemicolons
       (trim (if includesStr sqlQuery [dquote, CHR ''_''] then fixUnderscoreInQuotes sqlQuery else sqlQuery))"

definition safeExecuteQuery ::
  "(string \<Rightarrow> js_error + 'r) \<Rightarrow> string \<Rightarrow> string list \<times> (js_error + 'r)" where
  "safeExecuteQuery pool sqlQuery =
     (let q = prepareQuery sqlQuery; validation = validateSqlQuery q
      in if \<not> valid validation
         then ([], Inl (Error (''Invalid SQL query: '' @ the (message validation))))
         else ([q], pool q))"

text \<open>
  The relation between a string and a copy of it from which some underscores were
  deleted: what \<open>fixUnderscoreInQuotes\<close> does to its argument.
\<close>

inductive drops_underscores :: "string \<Rightarrow> string \<Rightarrow> bool" where
  drops_Nil: "drops_underscores [] []"
| drops_keep: "drops_underscores s t \<Longrightarrow> drops_underscores (c # s) (c # t)"
| drops_drop: "drops_underscores s t \<Longrightarrow> drops_underscores (CHR ''_'' # s) t"

section \<open>JavaScript numbers and values\<close>

text \<open>
  A Number is \<open>NaN\<close>, an infinity, or a finite double, kept as the rational it
  denotes (the sign of zero is not kept). \<open>roundToDouble\<close> is rounding to the nearest
  double, ties to even: the unit in the last place of a value between \<open>2^e\<close> and
  \<open>2^(e+1)\<close> is \<open>2^(e-52)\<close>, with \<open>e\<close> not below \<open>-1022\<close>; the value is
  a multiple \<open>m\<close> of that unit, and it is an infinity when it reaches \<open>2^1024\<close>, that
  is when \<open>e\<close> exceeds 1023 or \<open>e\<close> is 1023 and \<open>m\<close> is rounded up to \<open>2^53\<close>.
\<close>

datatype jsnumber = NaN | PosInfinity | NegInfinity | Finite rat

definition floorLog2 :: "rat \<Rightarrow> int" where
  "floorLog2 a =
     (let k = bitlen (fst (quotient_of a)) - bitlen (snd (quotient_of a))
      in if 2 powi k \<le> a then k else k - 1)"

definition roundHalfEven :: "rat \<Rightarrow> int" where
  "roundHalfEven x =
     (let f = \<lfloor>x\<rfloor>; r = x - of_int f
      in if r < 1 / 2 then f else if r > 1 / 2 then f + 1 else if even f then f else f + 1)"

definition roundToDouble :: "rat \<Rightarrow> jsnumber" where
  "roundToDouble q =
     (if q = 0 then Finite 0
      else
        (let a = \<bar>q\<bar>;
             e = max (floorLog2 a) (- 1022);
             ulp = 2 powi (e - 52);
             m = roundHalfEven (a / ulp)
         in if e > 1023 \<or> (e = 1023 \<and> m \<ge> 2 ^ 53)
            then (if q > 0 then PosInfinity else NegInfinity)
            else Finite (if q > 0 then of_int m * ulp else - (of_int m * ulp))))"

text \<open>
  \<open>Number(s)\<close> on a string (StringToNumber): white space around the literal is
  dropped; the empty string is 0; the literal is a signed decimal with optional fraction
  and exponent, a signed \<open>Infinity\<close>, or an unsigned binary, octal or hexadecimal
  integer; anything else is \<open>NaN\<close>. The value is the literal's exact value rounded
  to a double.
\<close>

definition digitValue :: "char \<Rightarrow> nat" where
  "digitValue c =
     (let n = (of_char c :: nat)
      in if 48 \<le> n \<and> n \<le> 57 then n - 48
         else if 97 \<le> n \<and> n \<le> 102 then n - 87
         else if 65 \<le> n \<and> n \<le> 70 then n - 55
         else 0)"

definition is_hex_digit :: "char \<Rightarrow> bool" where
  "is_hex_digit c =
     (let n = (of_char c :: nat)
      in (48 \<le> n \<and> n \<le> 57) \<or> (97 \<le> n \<and> n \<le> 102) \<or> (65 \<le> n \<and> n \<le> 70))"

definition digitsValue :: "int \<Rightarrow> string \<Rightarrow> int" where
  "digitsValue base ds = foldl (\<lambda>acc c. base * acc + int (digitValue c)) 0 ds"

definition parseExponent :: "string \<Rightarrow> int option" where
  "parseExponent s =
     (case s of
        [] \<Rightarrow> Some 0
      | c # r \<Rightarrow>
          if c = CHR ''e'' \<or> c = CHR ''E''
          then (let neg = (case r of x # _ \<Rightarrow> x = CHR ''-'' | [] \<Rightarrow> False);
                    signed = (case r of x # _ \<Rightarrow> x = CHR ''-'' \<or> x = CHR ''+'' | [] \<Rightarrow> False);
                    ds = (if signed then tl r else r)
                in if ds \<noteq> [] \<and> list_all is_digit ds
                   then Some (if neg then - digitsValue 10 ds else digitsValue 10 ds)
                   else None)
          else None)"

definition parseUnsignedDecimal :: "string \<Rightarrow> rat option" where
  "parseUnsignedDecimal s =
     (let ip = takeWhile is_digit s;
          r1 = dropWhile is_digit s;
          dot = (case r1 of x # _ \<Rightarrow> x = CHR ''.'' | [] \<Rightarrow> False);
          fp = (if dot then takeWhile is_digit (tl r1) else []);
          r2 = (if dot then dropWhile is_digit (tl r1) else r1)
      in if ip = [] \<and> fp = [] then None
         else case parseExponent r2 of
                None \<Rightarrow> None
              | Some ex \<Rightarrow>
                  Some ((of_int (digitsValue 10 ip) + of_int (digitsValue 10 fp) / 10 ^ length fp)
                        * 10 powi ex))"

definition parseRadix :: "string \<Rightarrow> jsnumber option" where
  "parseRadix t =
     (case t of
        z # x # ds \<Rightarrow>
          if z \<noteq> CHR ''0'' then None
          else if x = CHR ''x'' \<or> x = CHR ''X''
          then Some (if ds \<noteq> [] \<and> list_all is_hex_digit ds
                     then roundToDouble (of_int (digitsValue 16 ds)) else NaN)
          else if x = CHR ''o'' \<or> x = CHR ''O''
          then Some (if ds \<noteq> [] \<and> list_all (\<lambda>c. is_digit c \<and> digitValue c < 8) ds
                     then roundToDouble (of_int (digitsValue 8 ds)) else NaN)
          else if x = CHR ''b'' \<or> x = CHR ''B''
          then Some (if ds \<noteq> [] \<and> list_all (\<lambda>c. is_digit c \<and> digitValue c < 2) ds
                     then roundToDouble (of_int (digitsValue 2 ds)) else NaN)
          else None
      | _ \<Rightarrow> None)"

definition stringToNumber :: "string \<Rightarrow> jsnumber" where
  "stringToNumber s =
     (let t = trim s
      in if t = [] then Finite 0
         else case parseRadix t of
                Some n \<Rightarrow> n
              | None \<Rightarrow>
                  (let neg = (hd t = CHR ''-'');
                       signed = (hd t = CHR ''-'' \<or> hd t = CHR ''+'');
                       u = (if signed then tl t else t)
                   in if u = ''Infinity'' then (if neg then NegInfinity else PosInfinity)
                      else case parseUnsignedDecimal u of
                             None \<Rightarrow> NaN
                           | Some v \<Rightarrow> roundToDouble (if neg then - v else v)))"

text \<open>
  The values a parsed cell or a result row holds, as far as the program inspects them
  (\<open>typeof v === 'string'\<close>, \<open>Number(v)\<close>): undefined, null, a boolean, a number, a
  string, or a \<open>Date\<close> with its time value.
\<close>

datatype jsval = JUndefined | JNull | JBool bool | JNum jsnumber | JStr string | JDate jsnumber

fun Number :: "jsval \<Rightarrow> jsnumber" where
  "Number JUndefined = NaN"
| "Number JNull = Finite 0"
| "Number (JBool b) = Finite (if b then 1 else 0)"
| "Number (JNum n) = n"
| "Number (JStr s) = stringToNumber s"
| "Number (JDate t) = t"

definition isNaN :: "jsnumber \<Rightarrow> bool" where
  "isNaN n = (n = NaN)"

text \<open>\<open>Number.isInteger\<close>.\<close>

definition isInteger :: "jsnumber \<Rightarrow> bool" where
  "isInteger n = (case n of Finite q \<Rightarrow> q = of_int \<lfloor>q\<rfloor> | _ \<Rightarrow> False)"

section \<open>Schema normalisation and query intents\<close>

text \<open>
  A schema column as the two sources deliver it: upload-time columns carry \<open>name\<close>
  and \<open>type\<close>, catalog columns carry \<open>column_name\<close> and \<open>data_type\<close>. A
  field that is absent is \<open>None\<close>. \<open>a || b\<close> on two such fields takes \<open>a\<close> unless it
  is absent or the empty string.
\<close>

record column =
  col_name :: "string option"
  col_column_name :: "string option"
  col_type :: "string option"
  col_data_type :: "string option"

definition js_or :: "string option \<Rightarrow> string option \<Rightarrow> string option" where
  "js_or a b = (case a of Some s \<Rightarrow> (if s = [] then b else Some s) | None \<Rightarrow> b)"

text \<open>A falsy string field: absent or empty.\<close>

definition falsy :: "string option \<Rightarrow> bool" where
  "falsy a = (case a of Some s \<Rightarrow> s = [] | None \<Rightarrow> True)"

record normalized_column =
  nc_name :: string
  nc_type :: string

definition normalizeColumn :: "column \<Rightarrow> normalized_column" where
  "normalizeColumn col =
     \<lparr>nc_name = (case js_or (js_or (col_column_name col) (col_name col)) (Some []) of
                   Some s \<Rightarrow> s | None \<Rightarrow> []),
      nc_type = (case js_or (js_or (col_data_type col) (col_type col)) (Some ''text'') of
                   Some s \<Rightarrow> s | None \<Rightarrow> [])\<rparr>"

text \<open>The \<open>forEach\<close> that validates the normalised columns throws at the first bad one.\<close>

fun validateColumns :: "normalized_column list \<Rightarrow> js_error option" where
  "validateColumns [] = None"
| "validateColumns (col # cols) =
     (if nc_name col = [] then Some (Error ''Column name is required'')
      else if nc_type col = [] then Some (Error ''Column type is required'')
      else validateColumns cols)"

record validated_schema =
  schema :: "normalized_column list"
  group_date :: "normalized_column list"
  group_numeric :: "normalized_column list"
  group_text :: "normalized_column list"
  group_boolean :: "normalized_column list"

definition typeIncludesAny :: "string list \<Rightarrow> normalized_column \<Rightarrow> bool" where
  "typeIncludesAny ts col = list_ex (\<lambda>t. includesStr (toLowerCase (nc_type col)) t) ts"

text \<open>
  \<open>validateAndAdaptSchema\<close>. A schema that is not an array (\<open>None\<close>) is refused.
\<close>

definition validateAndAdaptSchema :: "column list option \<Rightarrow> js_error + validated_schema" where
  "validateAndAdaptSchema sch =
     (case sch of
        None \<Rightarrow> Inl (Error ''Schema must be an array of column definitions'')
      | Some cols \<Rightarrow>
          (let normalizedSchema = map normalizeColumn cols
           in case validateColumns normalizedSchema of
                Some e \<Rightarrow> Inl e
              | None \<Rightarrow>
                  Inr \<lparr>schema = normalizedSchema,
                       group_date = filter (typeIncludesAny [''date'', ''time'']) normalizedSchema,
                       group_numeric =
                         filter (typeIncludesAny [''int'', ''numeric'', ''decimal'', ''float'', ''double''])
                           normalizedSchema,
                       group_text = filter (typeIncludesAny [''char'', ''text'', ''varchar'']) normalizedSchema,
                       group_boolean = filter (typeIncludesAny [''bool'']) normalizedSchema\<rparr>))"

text \<open>\<open>columnGroups[type]\<close>, which is undefined for a name that is no group.\<close>

definition columnGroups :: "validated_schema \<Rightarrow> string \<Rightarrow> normalized_column list option" where
  "columnGroups vs t =
     (if t = ''date'' then Some (group_date vs)
      else if t = ''numeric'' then Some (group_numeric vs)
      else if t = ''text'' then Some (group_text vs)
      else if t = ''boolean'' then Some (group_boolean vs)
      else None)"

definition hasColumnType :: "validated_schema \<Rightarrow> string \<Rightarrow> bool" where
  "hasColumnType vs t = (case columnGroups vs t of Some g \<Rightarrow> length g > 0 | None \<Rightarrow> False)"

text \<open>
  One entry of \<open>QUERY_PATTERNS\<close>. Every \<open>patterns\<close> regular expression of the table
  is an alternation of lower-case literals with the flag \<open>i\<close>, so it is kept as the list
  of its alternatives; \<open>patterns.test(s)\<close> holds when one of them occurs in \<open>s\<close>
  whatever the case.
\<close>

record pattern_config =
  patterns :: "string list"
  cfg_keywords :: "string list"
  sqlHints :: "string list"
  requiresGroupBy :: bool
  requiredColumnTypes :: "string list option"

definition patterns_test :: "pattern_config \<Rightarrow> string \<Rightarrow> bool" where
  "patterns_test config s = list_ex (\<lambda>alt. includesStr (toLowerCase s) alt) (patterns config)"

definition QUERY_PATTERNS :: "(string \<times> pattern_config) list" where
  "QUERY_PATTERNS =
     [(''aggregation'',
        \<lparr>patterns = [''count'', ''sum'', ''average'', ''mean'', ''total'', ''aggregate''],
         cfg_keywords = [''total'', ''sum'', ''average'', ''count'', ''mean''],
         sqlHints = [''COUNT(*)'', ''SUM()'', ''AVG()'', ''GROUP BY''],
         requiresGroupBy = True,
         requiredColumnTypes = Some [''numeric'']\<rparr>),
      (''comparison'',
        \<lparr>patterns = [''compare'', ''difference'', ''versus'', ''vs'', ''against'', ''between''],
         cfg_keywords = [''compare'', ''difference'', ''versus'', ''vs'', ''against'', ''between''],
         sqlHints = [''CASE WHEN'', ''WITH'', ''UNION''],
         requiresGroupBy = False,
         requiredColumnTypes = Some [''numeric'', ''date'']\<rparr>),
      (''trending'',
        \<lparr>patterns = [''trend'', ''over time'', ''growth'', ''decline'', ''increase'', ''decrease''],
         cfg_keywords = [''trend'', ''growth'', ''decline'', ''increase'', ''decrease''],
         sqlHints = [''ORDER BY'', ''DATE_TRUNC'', ''EXTRACT''],
         requiresGroupBy = True,
         requiredColumnTypes = Some [''date'', ''numeric'']\<rparr>),
      (''ranking'',
        \<lparr>patterns = [''top'', ''bottom'', ''highest'', ''lowest'', ''best'', ''worst'', ''most'',
                     ''least'', ''ranking''],
         cfg_keywords = [''top'', ''bottom'', ''highest'', ''lowest'', ''best'', ''worst''],
         sqlHints = [''ORDER BY'', ''LIMIT'', ''RANK() OVER''],
         requiresGroupBy = False,
         requiredColumnTypes = Some [''numeric'']\<rparr>),
      (''distribution'',
        \<lparr>patterns = [''distribution'', ''breakdown'', ''percentage'', ''ratio'', ''share''],
         cfg_keywords = [''distribution'', ''breakdown'', ''percentage'', ''ratio''],
         sqlHints = [''PERCENT_RANK'', ''NTILE'', ''WIDTH_BUCKET''],
         requiresGroupBy = True,
         requiredColumnTypes = Some [''numeric'']\<rparr>),
      (''temporal'',
        \<lparr>patterns = [''daily'', ''weekly'', ''monthly'', ''yearly'', ''quarter'', ''year'', ''month'',
                     ''day'', ''date''],
         cfg_keywords = [''daily'', ''weekly'', ''monthly'', ''yearly''],
         sqlHints = [''DATE_TRUNC'', ''EXTRACT'', ''TO_CHAR''],
         requiresGroupBy = True,
         requiredColumnTypes = Some [''date'']\<rparr>)]"

text \<open>\<open>types.add(type)\<close> on a \<open>Set\<close>, which keeps insertion order.\<close>

definition set_add :: "string list \<Rightarrow> string \<Rightarrow> string list" where
  "set_add types t = (if t \<in> set types then types else types @ [t])"

text \<open>The body of the \<open>forEach\<close> over \<open>Object.entries(QUERY_PATTERNS)\<close>.\<close>

definition detectStep ::
  "validated_schema \<Rightarrow> string \<Rightarrow> string list \<Rightarrow> string \<times> pattern_config \<Rightarrow> string list" where
  "detectStep validatedSchema queryLower types entry =
     (let type = fst entry; config = snd entry
      in case requiredColumnTypes config of
           None \<Rightarrow> set_add types type
         | Some required \<Rightarrow>
             if \<not> list_all (hasColumnType validatedSchema) required then types
             else
               (let types1 = (if patterns_test config queryLower then set_add types type else types);
                    types2 = (if list_ex (\<lambda>keyword. includesStr queryLower keyword) (cfg_keywords config)
                              then set_add types1 type else types1);
                    types3 = (if type = ''temporal'' \<and> hasColumnType validatedSchema ''date''
                              then set_add types2 type else types2);
                    types4 = (if type \<in> set [''aggregation'', ''ranking'']
                                 \<and> hasColumnType validatedSchema ''numeric''
                              then (if includesStr queryLower ''total'' \<or> includesStr queryLower ''most''
                                    then set_add types3 type else types3)
                              else types3)
                in types4))"

definition detectQueryType :: "string \<Rightarrow> column list option \<Rightarrow> js_error + string list" where
  "detectQueryType query sch =
     (let queryLower = toLowerCase query
      in case validateAndAdaptSchema sch of
           Inl e \<Rightarrow> Inl e
         | Inr validatedSchema \<Rightarrow>
             (let types = foldl (detectStep validatedSchema queryLower) [] QUERY_PATTERNS
              in Inr (if length types > 0 then types else [''general''])))"

text \<open>
  The two lexical tests of an intent on the query text: its \<open>patterns\<close> expression and
  its keyword list.
\<close>

definition lexicalMatch :: "pattern_config \<Rightarrow> string \<Rightarrow> bool" where
  "lexicalMatch config queryLower =
     (patterns_test config queryLower
      \<or> list_ex (\<lambda>keyword. includesStr queryLower keyword) (cfg_keywords config))"

text \<open>The context-based additions of \<open>detectQueryType\<close>, which look at no pattern of the intent.\<close>

definition contextMatch :: "string \<Rightarrow> string \<Rightarrow> bool" where
  "contextMatch type queryLower =
     (type = ''temporal''
      \<or> (type \<in> set [''aggregation'', ''ranking'']
          \<and> (includesStr queryLower ''total'' \<or> includesStr queryLower ''most'')))"

text \<open>
  What makes \<open>detectQueryType\<close> add an entry of the table: the schema has every
  required column type, and a lexical test or a context-based addition applies.
\<close>

definition qualifies :: "validated_schema \<Rightarrow> string \<Rightarrow> string \<times> pattern_config \<Rightarrow> bool" where
  "qualifies validatedSchema queryLower entry =
     (case requiredColumnTypes (snd entry) of
        None \<Rightarrow> True
      | Some required \<Rightarrow>
          list_all (hasColumnType validatedSchema) required
          \<and> (lexicalMatch (snd entry) queryLower \<or> contextMatch (fst entry) queryLower))"

text \<open>Example schemas and table entries used below.\<close>

definition revenue_schema :: "column list option" where
  "revenue_schema =
     Some [\<lparr>col_name = Some ''revenue'', col_column_name = None,
            col_type = Some ''NUMERIC'', col_data_type = None\<rparr>]"

definition ranking_config :: pattern_config where
  "ranking_config = snd (QUERY_PATTERNS ! 3)"

definition date_schema :: "column list option" where
  "date_schema =
     Some [\<lparr>col_name = None, col_column_name = Some ''d'',
            col_type = None, col_data_type = Some ''date''\<rparr>]"

definition temporal_config :: pattern_config where
  "temporal_config = snd (QUERY_PATTERNS ! 5)"


section \<open>Table selection in \<open>processQuery\<close>\<close>

text \<open>
  A JavaScript object with string keys is kept as the association list of its own
  properties in insertion order. \<open>Object.entries\<close> lists the keys that are array indices (canonical decimal
  numerals below \<open>2^32 - 1\<close>) first, in ascending order, and the other keys after them
  in insertion order.
\<close>

type_synonym 'a js_object = "(string \<times> 'a) list"

text \<open>
  \<open>obj[k] = v\<close> on a plain object. The key \<open>__proto__\<close> is the accessor of
  \<open>Object.prototype\<close>: assigning a number or a string to it stores nothing, so the
  object gets no own property.
\<close>

fun obj_put :: "'a js_object \<Rightarrow> string \<Rightarrow> 'a \<Rightarrow> 'a js_object" where
  "obj_put [] k v = [(k, v)]"
| "obj_put ((k', v') # kvs) k v = (if k' = k then (k, v) # kvs else (k', v') # obj_put kvs k v)"

definition obj_set :: "'a js_object \<Rightarrow> string \<Rightarrow> 'a \<Rightarrow> 'a js_object" where
  "obj_set obj k v = (if k = ''__proto__'' then obj else obj_put obj k v)"

definition is_array_index :: "string \<Rightarrow> bool" where
  "is_array_index k =
     (k \<noteq> [] \<and> list_all is_digit k \<and> (k = ''0'' \<or> hd k \<noteq> CHR ''0'')
      \<and> digitsValue 10 k < 2 ^ 32 - 1)"

definition Object_entries :: "'a js_object \<Rightarrow> (string \<times> 'a) list" where
  "Object_entries obj =
     sort_key (\<lambda>kv. digitsValue 10 (fst kv)) (filter (\<lambda>kv. is_array_index (fst kv)) obj)
     @ filter (\<lambda>kv. \<not> is_array_index (fst kv)) obj"

text \<open>\<open>s.split(c)\<close> for a one-character separator.\<close>

fun split_on :: "char \<Rightarrow> string \<Rightarrow> string list" where
  "split_on c [] = [[]]"
| "split_on c (x # xs) =
     (if x = c then [] # split_on c xs
      else (case split_on c xs of w # ws \<Rightarrow> (x # w) # ws | [] \<Rightarrow> [[x]]))"

text \<open>
  The database as \<open>processQuery\<close> reads it: the catalog of tables, the sample read of
  a table (\<open>SELECT * FROM "t" LIMIT n\<close>) and the column names of a table; each read
  may fail. A row lists its columns in \<open>Object.keys\<close> order.
\<close>

type_synonym row = "(string \<times> jsval) list"

record catalog_table =
  table_schema :: string
  table_type :: string
  table_name :: string

record database =
  db_tables :: "js_error + catalog_table list"
  db_sample :: "string \<Rightarrow> nat \<Rightarrow> js_error + row list"
  db_columns :: "string \<Rightarrow> js_error + string list"

datatype db_call = QueryTables | QuerySample string nat | QueryColumns string

text \<open>
  The request body, and what \<open>processQuery\<close> does with the request. The query text
  is \<open>query || userQuery\<close>; the request is refused when that is absent or empty.
\<close>

record request_body =
  body_query :: "string option"
  body_userQuery :: "string option"
  body_tableName :: "string option"

datatype response =
    Status400 string
  | Status404 string
  | Status500 string
  | ProcessWithTable string

record selection =
  calls :: "db_call list"
  relevanceScores :: "int js_object option"
  outcome :: response

text \<open>
  The \<open>WHERE\<close> clause of the catalog query: base tables of the public schema, without
  the bookkeeping tables.
\<close>

definition bookkeepingTables :: "string list" where
  "bookkeepingTables = [''migrations'', ''saved_queries'', ''analysis_sessions'', ''uploaded_files'']"

definition dataTables :: "catalog_table list \<Rightarrow> string list" where
  "dataTables cat =
     map table_name
       (filter (\<lambda>t. table_schema t = ''public'' \<and> table_type t = ''BASE TABLE''
                     \<and> table_name t \<notin> set bookkeepingTables) cat)"

definition businessKeywords :: "string list" where
  "businessKeywords =
     [''product'', ''sale'', ''order'', ''customer'', ''price'', ''quantity'', ''inventory'', ''item'']"

definition tableNameScore :: "string \<Rightarrow> string \<Rightarrow> int" where
  "tableNameScore userQueryText table =
     (let tableWords = split_on (CHR '' '') (map (\<lambda>c. if c = CHR ''_'' then CHR '' '' else c) table)
      in foldl (\<lambda>score word.
                  if length word > 3 \<and> includesStr (toLowerCase userQueryText) (toLowerCase word)
                  then score + 10 else score) 0 tableWords)"

definition stringValues :: "row \<Rightarrow> string list" where
  "stringValues r = concat (map (\<lambda>kv. case snd kv of JStr s \<Rightarrow> [s] | _ \<Rightarrow> []) r)"

text \<open>The sample read is inside a \<open>try\<close>: a failed read adds nothing.\<close>

definition sampleScore :: "string \<Rightarrow> js_error + row list \<Rightarrow> int" where
  "sampleScore userQueryText sampleData =
     (case sampleData of
        Inl e \<Rightarrow> 0
      | Inr rows \<Rightarrow>
          (case rows of
             [] \<Rightarrow> 0
           | first # _ \<Rightarrow>
               foldl (\<lambda>score val.
                        if val \<noteq> [] \<and> length val > 3
                           \<and> includesStr (toLowerCase userQueryText) (toLowerCase val)
                        then score + 15 else score) 0 (stringValues first)))"

definition columnScore :: "string \<Rightarrow> string list \<Rightarrow> int" where
  "columnScore userQueryText columnNames =
     foldl (\<lambda>score column_name.
              (let s1 = (if includesStr (toLowerCase userQueryText) (toLowerCase column_name)
                         then score + 5 else score)
               in foldl (\<lambda>s keyword. if includesStr (toLowerCase column_name) keyword then s + 3 else s)
                    s1 businessKeywords)) 0 columnNames"

text \<open>
  The scoring loop over the table names. A failed column read is not caught in the
  loop and ends the request.
\<close>

fun scoreTables ::
  "database \<Rightarrow> string \<Rightarrow> string list \<Rightarrow> db_call list \<Rightarrow> int js_object
     \<Rightarrow> db_call list \<times> (js_error + int js_object)" where
  "scoreTables db userQueryText [] cs scores = (cs, Inr scores)"
| "scoreTables db userQueryText (table # tables) cs scores =
     (let s1 = tableNameScore userQueryText table;
          s2 = s1 + sampleScore userQueryText (db_sample db table 1);
          cs2 = cs @ [QuerySample table 1, QueryColumns table]
      in case db_columns db table of
           Inl e \<Rightarrow> (cs2, Inl e)
         | Inr columnNames \<Rightarrow>
             scoreTables db userQueryText tables cs2
               (obj_set scores table (s2 + columnScore userQueryText columnNames)))"

definition businessTableName :: "string \<Rightarrow> bool" where
  "businessTableName tableName =
     list_ex (\<lambda>k. includesStr (toLowerCase tableName) k)
       [''sales'', ''order'', ''product'', ''customer'', ''inventory'', ''business'']"

definition errorMessage :: "js_error \<Rightarrow> string" where
  "errorMessage e = (case e of Error m \<Rightarrow> m | TypeError m \<Rightarrow> m | SyntaxError m \<Rightarrow> m)"

definition processQuery :: "database \<Rightarrow> request_body \<Rightarrow> selection" where
  "processQuery db body =
     (if falsy (js_or (body_query body) (body_userQuery body))
      then \<lparr>calls = [], relevanceScores = None, outcome = Status400 ''Query is required''\<rparr>
      else
        (let userQueryText = the (js_or (body_query body) (body_userQuery body))
         in
          if \<not> falsy (body_tableName body)
          then \<lparr>calls = [], relevanceScores = None,
                outcome = ProcessWithTable (the (body_tableName body))\<rparr>
          else
            (case db_tables db of
               Inl e \<Rightarrow>
                 \<lparr>calls = [QueryTables], relevanceScores = None,
                  outcome = Status500 (''Error executing query: '' @ errorMessage e)\<rparr>
             | Inr cat \<Rightarrow>
                 (let tableNames = dataTables cat
                  in if length tableNames = 0
                     then \<lparr>calls = [QueryTables], relevanceScores = None,
                           outcome = Status404
                             ''No data tables available in the database. Please upload data first.''\<rparr>
                     else if length tableNames = 1
                     then \<lparr>calls = [QueryTables], relevanceScores = None,
                           outcome = ProcessWithTable (tableNames ! 0)\<rparr>
                     else
                       (case scoreTables db userQueryText tableNames [QueryTables] [] of
                          (cs, Inl e) \<Rightarrow>
                            \<lparr>calls = cs, relevanceScores = None,
                             outcome = Status500 (''Error executing query: '' @ errorMessage e)\<rparr>
                        | (cs, Inr scores) \<Rightarrow>
                            (let sortedTables = sort_key (\<lambda>kv. - snd kv) (Object_entries scores)
                             in if length sortedTables > 0 \<and> snd (sortedTables ! 0) > 0
                                then \<lparr>calls = cs, relevanceScores = Some scores,
                                      outcome = ProcessWithTable (fst (sortedTables ! 0))\<rparr>
                                else
                                  (case find businessTableName tableNames of
                                     Some tableName \<Rightarrow>
                                       \<lparr>calls = cs, relevanceScores = Some scores,
                                        outcome = ProcessWithTable tableName\<rparr>
                                   | None \<Rightarrow>
                                       \<lparr>calls = cs, relevanceScores = Some scores,
                                        outcome = ProcessWithTable (tableNames ! 0)\<rparr>)))))))"

text \<open>Example databases used below.\<close>

definition sales_only_db :: database where
  "sales_only_db =
     \<lparr>db_tables = Inr [\<lparr>table_schema = ''public'', table_type = ''BASE TABLE'', table_name = ''migrations''\<rparr>,
                        \<lparr>table_schema = ''public'', table_type = ''BASE TABLE'', table_name = ''sales''\<rparr>,
                        \<lparr>table_schema = ''public'', table_type = ''BASE TABLE'', table_name = ''saved_queries''\<rparr>],
      db_sample = (\<lambda>t n. Inr []),
      db_columns = (\<lambda>t. Inr [''revenue'', ''category''])\<rparr>"

definition two_table_db :: database where
  "two_table_db =
     \<lparr>db_tables = Inr [\<lparr>table_schema = ''public'', table_type = ''BASE TABLE'', table_name = ''staff''\<rparr>,
                        \<lparr>table_schema = ''public'', table_type = ''BASE TABLE'', table_name = ''sales''\<rparr>],
      db_sample = (\<lambda>t n. if t = ''sales'' then Inr [[(''category'', JStr ''Electronics'')]] else Inl (Error ''read'')),
      db_columns = (\<lambda>t. if t = ''sales'' then Inr [''revenue'', ''category''] else Inr [''name''])\<rparr>"

definition revenue_request :: request_body where
  "revenue_request =
     \<lparr>body_query = Some ''What is the total revenue?'', body_userQuery = None, body_tableName = None\<rparr>"

section \<open>The result shaper \<open>formatQueryResults\<close>\<close>

text \<open>
  \<open>row[key]\<close>, which is undefined for a key the row does not have, and
  \<open>Object.keys(row)\<close>.
\<close>

definition getField :: "row \<Rightarrow> string \<Rightarrow> jsval" where
  "getField r key = (case map_of r key of Some v \<Rightarrow> v | None \<Rightarrow> JUndefined)"

definition Object_keys :: "row \<Rightarrow> string list" where
  "Object_keys r = map fst r"

text \<open>The decimal numeral of a length, as a template literal prints it.\<close>

fun natToString :: "nat \<Rightarrow> string" where
  "natToString n =
     (if n < 10 then [char_of (48 + n)] else natToString (n div 10) @ [char_of (48 + n mod 10)])"

record chart =
  chart_type :: string
  chart_labels :: "jsval list"
  dataset_label :: string
  dataset_data :: "jsnumber list"

record formatted_results =
  answer :: string
  filtered_data :: "row list"
  chart_data :: "chart option"
  source :: string

text \<open>
  The answer sentence. \<open>toStr\<close> is the conversion of a cell value to a string in a
  template literal, a parameter of the model.
\<close>

definition formatAnswer :: "(jsval \<Rightarrow> string) \<Rightarrow> string \<Rightarrow> row list \<Rightarrow> string" where
  "formatAnswer toStr query rows =
     (let q = toLowerCase query;
          isCountQuery = (includesStr q ''how many'' \<or> includesStr q ''count'');
          isSumQuery = (includesStr q ''total'' \<or> includesStr q ''sum'');
          isAverageQuery = (includesStr q ''average'' \<or> includesStr q ''avg'');
          isMaxMinQuery = (includesStr q ''highest'' \<or> includesStr q ''lowest'' \<or> includesStr q ''maximum''
                           \<or> includesStr q ''minimum'' \<or> includesStr q ''best'' \<or> includesStr q ''worst'')
      in if length rows = 0 then ''No data found for your query.''
         else if length rows = 1 \<and> length (Object_keys (rows ! 0)) = 1
         then (let key = Object_keys (rows ! 0) ! 0; v = getField (rows ! 0) key
               in if isCountQuery then ''Found '' @ toStr v @ '' records.''
                  else if isSumQuery then ''The total '' @ key @ '' is '' @ toStr v @ ''.''
                  else if isAverageQuery then ''The average '' @ key @ '' is '' @ toStr v @ ''.''
                  else if isMaxMinQuery then ''The '' @ key @ '' is '' @ toStr v @ ''.''
                  else ''The '' @ key @ '' is '' @ toStr v @ ''.'')
         else ''Found '' @ natToString (length rows) @ '' results.'')"

definition chooseChartType :: "string \<Rightarrow> string \<Rightarrow> nat \<Rightarrow> string" where
  "chooseChartType query labelColumn n =
     (let l = toLowerCase labelColumn
      in if includesStr l ''month'' \<or> includesStr l ''date'' \<or> includesStr l ''day'' \<or> includesStr l ''time''
         then ''line''
         else if n > 10 then ''bar''
         else if n \<le> 8 \<and> (includesStr (toLowerCase query) ''breakdown''
                           \<or> includesStr (toLowerCase query) ''distribution'')
         then ''pie''
         else ''bar'')"

text \<open>The chart block: \<open>chartData\<close> stays null unless every test on the way passes.\<close>

definition inferChart :: "string \<Rightarrow> row list \<Rightarrow> chart option" where
  "inferChart query rows =
     (if length rows > 0 \<and> length rows \<le> 50
      then (let keys = Object_keys (rows ! 0)
            in if length keys \<ge> 2
               then (let possibleNumericColumns =
                           filter (\<lambda>key. \<not> isNaN (Number (getField (rows ! 0) key))) keys
                     in if length possibleNumericColumns > 0
                        then (let valueColumn = possibleNumericColumns ! 0;
                                  labelColumn = (case find (\<lambda>key. key \<noteq> valueColumn) keys of
                                                   Some k \<Rightarrow> (if k = [] then keys ! 0 else k)
                                                 | None \<Rightarrow> keys ! 0)
                              in Some \<lparr>chart_type = chooseChartType query labelColumn (length rows),
                                       chart_labels = map (\<lambda>r. getField r labelColumn) rows,
                                       dataset_label = valueColumn,
                                       dataset_data = map (\<lambda>r. Number (getField r valueColumn)) rows\<rparr>)
                        else None)
               else None)
      else None)"

definition formatQueryResults :: "(jsval \<Rightarrow> string) \<Rightarrow> string \<Rightarrow> row list \<Rightarrow> formatted_results" where
  "formatQueryResults toStr query rows =
     \<lparr>answer = formatAnswer toStr query rows,
      filtered_data = rows,
      chart_data = inferChart query rows,
      source = ''sql''\<rparr>"

text \<open>A column all of whose values, in every row, convert to a number.\<close>

definition allNumeric :: "row list \<Rightarrow> string \<Rightarrow> bool" where
  "allNumeric rows key = list_all (\<lambda>r. \<not> isNaN (Number (getField r key))) rows"

text \<open>Example result sets used below.\<close>

definition mixed_rows :: "row list" where
  "mixed_rows =
     [[(''amount'', JStr ''10''), (''units'', JStr ''2'')],
      [(''amount'', JStr ''n/a''), (''units'', JStr ''3'')]]"

definition category_rows :: "row list" where
  "category_rows =
     [[(''category'', JStr ''Electronics''), (''total_revenue'', JStr ''2850.00'')],
      [(''category'', JStr ''Toys''), (''total_revenue'', JStr ''120.50'')]]"

definition jsString :: "jsval \<Rightarrow> string" where
  "jsString v = (case v of JStr s \<Rightarrow> s | _ \<Rightarrow> [])"

section \<open>Noise stripping in \<open>generateSQL\<close>\<close>

text \<open>
  \<open>.replace(/```sql|```/g, '')\<close>: at each position the first alternative is tried
  before the second; a match is dropped and the scan goes on after it.
\<close>

function removeFences :: "string \<Rightarrow> string" where
  "removeFences [] = []"
| "removeFences (c # cs) =
     (if prefix ''```sql'' (c # cs) then removeFences (drop 6 (c # cs))
      else if prefix ''```'' (c # cs) then removeFences (drop 3 (c # cs))
      else c # removeFences cs)"
  by pat_completeness auto
termination
  by (relation "measure length") simp_all

text \<open>The rest of a string after the first occurrence of \<open>sub\<close>, if there is one.\<close>

fun afterFirst :: "string \<Rightarrow> string \<Rightarrow> string option" where
  "afterFirst sub [] = (if sub = [] then Some [] else None)"
| "afterFirst sub (x # xs) =
     (if prefix sub (x # xs) then Some (drop (length sub) (x # xs)) else afterFirst sub xs)"

text \<open>
  \<open>.replace(/<think>[\s\S]*?<\/think>/g, '')\<close>: the lazy body ends at the first
  closing tag; without a closing tag there is no match at that position.
\<close>

function removeThink :: "string \<Rightarrow> string" where
  "removeThink [] = []"
| "removeThink (c # cs) =
     (if prefix ''<think>'' (c # cs)
      then (case afterFirst ''</think>'' (drop 7 (c # cs)) of
              Some rest \<Rightarrow> removeThink rest
            | None \<Rightarrow> c # removeThink cs)
      else c # removeThink cs)"
  by pat_completeness auto
termination
proof (relation "measure length")
  show "wf (measure length)"
    by simp
next
  fix c cs rest
  assume a: "afterFirst ''</think>'' (drop 7 (c # cs)) = Some rest"
  have le: "\<And>sub s r. afterFirst sub s = Some r \<Longrightarrow> length r \<le> length s"
  proof -
    fix sub s r
    show "afterFirst sub s = Some r \<Longrightarrow> length r \<le> length s"
      by (induction s) (auto split: if_splits)
  qed
  from le[OF a] have "length rest \<le> length (c # cs) - 7"
    by simp
  then show "(rest, c # cs) \<in> measure length"
    by simp
next
  fix c cs
  show "(cs, c # cs) \<in> measure length"
    by simp
next
  fix c cs
  show "(cs, c # cs) \<in> measure length"
    by simp
qed

text \<open>
  The cleaning chain applied to the model's answer:
  \<open>content.trim().replace(fences).replace(think).trim().split(";")[0]\<close>.
\<close>

definition denoise :: "string \<Rightarrow> string" where
  "denoise content = trim (removeThink (removeFences (trim content)))"

definition stripNoise :: "string \<Rightarrow> string" where
  "stripNoise content = takeWhile (\<lambda>c. c \<noteq> CHR '';'') (denoise content)"


section \<open>Type inference at upload\<close>

text \<open>
  The two number shapes the parser tests with regular expressions:
  \<open>/^-?\d+(\.\d+)?$/\<close> and \<open>/^-?\d+(,\d{3})*(\.\d+)?$/\<close>.
\<close>

definition dropMinus :: "string \<Rightarrow> string" where
  "dropMinus s = (case s of c # r \<Rightarrow> (if c = CHR ''-'' then r else s) | [] \<Rightarrow> [])"

text \<open>\<open>(\.\d+)?$\<close>: nothing, or a point and at least one digit, up to the end.\<close>

definition fractionToEnd :: "string \<Rightarrow> bool" where
  "fractionToEnd s =
     (case s of
        [] \<Rightarrow> True
      | c # ds \<Rightarrow> c = CHR ''.'' \<and> ds \<noteq> [] \<and> list_all is_digit ds)"

text \<open>\<open>(,\d{3})*\<close>: the groups of a comma and three digits at the front.\<close>

fun dropGroups :: "string \<Rightarrow> string" where
  "dropGroups (c # d1 # d2 # d3 # r) =
     (if c = CHR '','' \<and> is_digit d1 \<and> is_digit d2 \<and> is_digit d3
      then dropGroups r else c # d1 # d2 # d3 # r)"
| "dropGroups s = s"

definition matchesSimpleDecimal :: "string \<Rightarrow> bool" where
  "matchesSimpleDecimal s =
     (let u = dropMinus s
      in takeWhile is_digit u \<noteq> [] \<and> fractionToEnd (dropWhile is_digit u))"

definition matchesGroupedDecimal :: "string \<Rightarrow> bool" where
  "matchesGroupedDecimal s =
     (let u = dropMinus s
      in takeWhile is_digit u \<noteq> [] \<and> fractionToEnd (dropGroups (dropWhile is_digit u)))"

text \<open>
  \<open>isValidDate\<close>. Whether \<open>new Date(value)\<close> is a valid date is up to the engine
  for most strings; it is the parameter \<open>dateParses\<close>. \<open>toStr\<close> is
  \<open>value.toString()\<close> for a value that is no string.
\<close>

definition valueToString :: "(jsval \<Rightarrow> string) \<Rightarrow> jsval \<Rightarrow> string" where
  "valueToString toStr v = (case v of JStr s \<Rightarrow> s | _ \<Rightarrow> toStr v)"

definition isValidDate :: "(jsval \<Rightarrow> bool) \<Rightarrow> (jsval \<Rightarrow> string) \<Rightarrow> jsval \<Rightarrow> bool" where
  "isValidDate dateParses toStr v =
     (if (case v of JStr s \<Rightarrow> length s < 6 | _ \<Rightarrow> False) then False
      else if \<not> isNaN (Number v) \<and> length (valueToString toStr v) < 4 then False
      else if (case v of
                 JStr s \<Rightarrow> includesStr s ''$''
                            \<or> (matchesSimpleDecimal s \<and> \<not> includesStr s ''/'')
               | _ \<Rightarrow> False) then False
      else dateParses v)"

definition isCurrency :: "jsval \<Rightarrow> bool" where
  "isCurrency v =
     (case v of
        JStr s \<Rightarrow> includesStr s ''$'' \<or> matchesGroupedDecimal s
                   \<or> (matchesSimpleDecimal s \<and> includesStr s ''.'')
      | _ \<Rightarrow> False)"

text \<open>
  The quotient of two counts and a decimal literal, as doubles, and their comparison
  (both are finite here).
\<close>

definition finiteValue :: "jsnumber \<Rightarrow> rat" where
  "finiteValue n = (case n of Finite q \<Rightarrow> q | _ \<Rightarrow> 0)"

definition ratio :: "nat \<Rightarrow> nat \<Rightarrow> rat" where
  "ratio k n = finiteValue (roundToDouble (of_nat k / of_nat n))"

definition literal :: "rat \<Rightarrow> rat" where
  "literal q = finiteValue (roundToDouble q)"

definition count :: "('a \<Rightarrow> bool) \<Rightarrow> 'a list \<Rightarrow> nat" where
  "count P xs = length (filter P xs)"

definition likelyNumericColumn :: "string \<Rightarrow> bool" where
  "likelyNumericColumn lowerColName =
     (includesStr lowerColName ''price'' \<or> includesStr lowerColName ''cost''
      \<or> includesStr lowerColName ''total'' \<or> includesStr lowerColName ''amount''
      \<or> includesStr lowerColName ''sum'' \<or> includesStr lowerColName ''qty''
      \<or> includesStr lowerColName ''quantity'')"

definition dateHint :: "string \<Rightarrow> bool" where
  "dateHint lowerColName =
     (includesStr lowerColName ''date'' \<or> includesStr lowerColName ''time''
      \<or> includesStr lowerColName ''day'' \<or> includesStr lowerColName ''month''
      \<or> includesStr lowerColName ''year'')"

definition isBlank :: "jsval \<Rightarrow> bool" where
  "isBlank v = (v = JNull \<or> v = JUndefined \<or> v = JStr [])"

definition inferDataType ::
  "(jsval \<Rightarrow> bool) \<Rightarrow> (jsval \<Rightarrow> string) \<Rightarrow> jsval list \<Rightarrow> string \<Rightarrow> string" where
  "inferDataType dateParses toStr values columnName =
     (let validValues = filter (\<lambda>v. \<not> isBlank v) values
      in if length validValues = 0 then ''TEXT''
         else
           (let lowerColName = toLowerCase columnName;
                currencyCount = count (\<lambda>v. isCurrency v \<or> \<not> isNaN (Number v)) validValues
            in if likelyNumericColumn lowerColName \<and> currencyCount > 0
                  \<and> ratio currencyCount (length validValues) \<ge> literal (7 / 10)
               then ''NUMERIC''
               else
                 (let possibleDateCount = count (isValidDate dateParses toStr) validValues
                  in if possibleDateCount = length validValues \<and> possibleDateCount > 0
                        \<and> (dateHint lowerColName
                             \<or> ratio possibleDateCount (length validValues) > literal (9 / 10))
                     then ''DATE''
                     else
                       (let possibleNumberCount = count (\<lambda>v. \<not> isNaN (Number v)) validValues
                        in if possibleNumberCount = length validValues
                           then (let integerCount = count (\<lambda>v. isInteger (Number v)) validValues
                                 in if integerCount = length validValues then ''INTEGER'' else ''NUMERIC'')
                           else ''TEXT''))))"

text \<open>
  An integer string: an optional minus sign and decimal digits, at least one.
\<close>

definition integerString :: "string \<Rightarrow> bool" where
  "integerString s = (dropMinus s \<noteq> [] \<and> list_all is_digit (dropMinus s))"

text \<open>A date parser for the examples: it takes every string for a date.\<close>

definition lenientDates :: "jsval \<Rightarrow> bool" where
  "lenientDates v = (case v of JStr s \<Rightarrow> True | _ \<Rightarrow> False)"

text \<open>
  Cells that hold a simple decimal string, and cells that hold an integer string of at
  most 308 characters (its value is then below the largest double).
\<close>

definition simpleDecimalValue :: "jsval \<Rightarrow> bool" where
  "simpleDecimalValue v = (case v of JStr s \<Rightarrow> matchesSimpleDecimal s | _ \<Rightarrow> False)"

definition integerValue :: "jsval \<Rightarrow> bool" where
  "integerValue v = (case v of JStr s \<Rightarrow> integerString s \<and> length s \<le> 308 | _ \<Rightarrow> False)"

section \<open>Regular expressions\<close>

text \<open>
  The regular expressions of \<open>openai.js\<close> are built from character classes, sequence,
  alternation, greedy and lazy repetition of a class, an optional part, the word boundary
  \<open>\b\<close>, the end anchor \<open>$\<close>, a negative lookahead and capture groups. A match is
  searched by backtracking: \<open>matches r x\<close> lists, in the order in which backtracking
  tries them, the states in which \<open>r\<close> can end when started in the state \<open>x\<close>; the
  match the engine reports is the first of them. A state holds the text before the
  position (last character first), the text from the position on, and the groups captured
  so far.
\<close>

datatype regex =
    REmpty
  | RChar "char \<Rightarrow> bool"
  | RSeq regex regex
  | RAlt regex regex
  | RStar "char \<Rightarrow> bool"
  | RLazy "char \<Rightarrow> bool"
  | ROpt regex
  | RWordBoundary
  | REnd
  | RNotAhead regex
  | RGroup nat regex

datatype mstate = MState (m_seen: string) (m_rest: string) (m_groups: "(nat \<times> string) list")

text \<open>
  The positions that a run of characters of a class can reach, the shortest run first.
\<close>

fun runs :: "(char \<Rightarrow> bool) \<Rightarrow> string \<Rightarrow> string \<Rightarrow> (string \<times> string) list" where
  "runs p sn [] = [(sn, [])]"
| "runs p sn (c # cs) = (sn, c # cs) # (if p c then runs p (c # sn) cs else [])"

definition wordAt :: "string \<Rightarrow> bool" where
  "wordAt s = (case s of [] \<Rightarrow> False | c # _ \<Rightarrow> is_word c)"

definition advances :: "mstate \<Rightarrow> mstate \<Rightarrow> bool" where
  "advances x y = (length (m_rest y) < length (m_rest x))"

definition setGroup :: "nat \<Rightarrow> mstate \<Rightarrow> mstate \<Rightarrow> mstate" where
  "setGroup n x y =
     MState (m_seen y) (m_rest y)
       ((n, take (length (m_rest x) - length (m_rest y)) (m_rest x))
        # filter (\<lambda>g. fst g \<noteq> n) (m_groups y))"

primrec matches :: "regex \<Rightarrow> mstate \<Rightarrow> mstate list" where
  "matches REmpty x = [x]"
| "matches (RChar p) x =
     (case m_rest x of
        [] \<Rightarrow> []
      | c # cs \<Rightarrow> if p c then [MState (c # m_seen x) cs (m_groups x)] else [])"
| "matches (RSeq r1 r2) x = concat (map (matches r2) (matches r1 x))"
| "matches (RAlt r1 r2) x = matches r1 x @ matches r2 x"
| "matches (RStar p) x =
     map (\<lambda>pos. MState (fst pos) (snd pos) (m_groups x)) (rev (runs p (m_seen x) (m_rest x)))"
| "matches (RLazy p) x =
     map (\<lambda>pos. MState (fst pos) (snd pos) (m_groups x)) (runs p (m_seen x) (m_rest x))"
| "matches (ROpt r) x = filter (advances x) (matches r x) @ [x]"
| "matches RWordBoundary x = (if wordAt (m_seen x) \<noteq> wordAt (m_rest x) then [x] else [])"
| "matches REnd x = (if m_rest x = [] then [x] else [])"
| "matches (RNotAhead r) x = (if matches r x = [] then [x] else [])"
| "matches (RGroup n r) x = map (setGroup n x) (matches r x)"

text \<open>Shorthands: one given character, one or more characters of a class, a sequence of parts.\<close>

definition only :: "char \<Rightarrow> regex" where
  "only c = RChar (\<lambda>x. x = c)"

definition oneOrMore :: "(char \<Rightarrow> bool) \<Rightarrow> regex" where
  "oneOrMore p = RSeq (RChar p) (RStar p)"

definition seqs :: "regex list \<Rightarrow> regex" where
  "seqs rs = foldr RSeq rs REmpty"

text \<open>
  A literal under the flag \<open>i\<close>: two characters match when they are the same letter in
  either case. A literal without the flag is \<open>lit\<close>.
\<close>

definition ci_char :: "char \<Rightarrow> char \<Rightarrow> bool" where
  "ci_char p c = (toLowerCase_char c = toLowerCase_char p)"

definition ci :: "string \<Rightarrow> regex" where
  "ci s = seqs (map (\<lambda>p. RChar (ci_char p)) s)"

definition lit :: "string \<Rightarrow> regex" where
  "lit s = seqs (map only s)"

text \<open>
  A match as \<open>replace\<close> and \<open>match\<close> see it: the text before it, the matched text,
  the text after it and the captured groups.
\<close>

datatype rmatch =
  RMatch (m_before: string) (m_text: string) (m_after: string) (m_caps: "(nat \<times> string) list")

definition cap :: "rmatch \<Rightarrow> nat \<Rightarrow> string" where
  "cap m n = (case map_of (m_caps m) n of Some s \<Rightarrow> s | None \<Rightarrow> [])"

definition matchAt :: "regex \<Rightarrow> string \<Rightarrow> string \<Rightarrow> rmatch option" where
  "matchAt re sn s =
     (case matches re (MState sn s []) of
        [] \<Rightarrow> None
      | y # _ \<Rightarrow> Some (RMatch (rev sn) (take (length s - length (m_rest y)) s) (m_rest y) (m_groups y)))"

text \<open>
  The first match in a string: the positions are tried from left to right, the end of
  the string included.
\<close>

fun searchFrom :: "regex \<Rightarrow> string \<Rightarrow> string \<Rightarrow> rmatch option" where
  "searchFrom re sn [] = matchAt re sn []"
| "searchFrom re sn (c # cs) =
     (case matchAt re sn (c # cs) of
        Some m \<Rightarrow> Some m
      | None \<Rightarrow> searchFrom re (c # sn) cs)"

definition search :: "regex \<Rightarrow> string \<Rightarrow> rmatch option" where
  "search re s = searchFrom re [] s"

text \<open>\<open>re.test(s)\<close>, and \<open>s.match(re)\<close> read as a condition.\<close>

definition test :: "regex \<Rightarrow> string \<Rightarrow> bool" where
  "test re s = (search re s \<noteq> None)"

text \<open>\<open>s.replace(re, f)\<close> for an expression without the flag \<open>g\<close>.\<close>

definition replaceFirst :: "regex \<Rightarrow> (rmatch \<Rightarrow> string) \<Rightarrow> string \<Rightarrow> string" where
  "replaceFirst re f s =
     (case search re s of
        None \<Rightarrow> s
      | Some m \<Rightarrow> m_before m @ f m @ m_after m)"

text \<open>
  \<open>s.replace(re, f)\<close> for an expression with the flag \<open>g\<close>: after a match the search
  goes on where the match ended; after an empty match it goes on one character later,
  and that character is copied.
\<close>

function replaceFrom :: "regex \<Rightarrow> (rmatch \<Rightarrow> string) \<Rightarrow> string \<Rightarrow> string \<Rightarrow> string" where
  "replaceFrom re f sn s =
     (case matchAt re sn s of
        Some m \<Rightarrow>
          if length (m_after m) < length s
          then f m @ replaceFrom re f (rev (m_text m) @ sn) (m_after m)
          else f m @ (case s of [] \<Rightarrow> [] | c # cs \<Rightarrow> c # replaceFrom re f (c # sn) cs)
      | None \<Rightarrow> (case s of [] \<Rightarrow> [] | c # cs \<Rightarrow> c # replaceFrom re f (c # sn) cs))"
  by pat_completeness auto
termination
  by (relation "measure (\<lambda>(re, f, sn, s). length s)") simp_all

declare replaceFrom.simps [simp del]

definition replaceAll :: "regex \<Rightarrow> (rmatch \<Rightarrow> string) \<Rightarrow> string \<Rightarrow> string" where
  "replaceAll re f s = replaceFrom re f [] s"

text \<open>The number of matches of an expression with the flag \<open>g\<close>: \<open>(s.match(re) || []).length\<close>.\<close>

function countFrom :: "regex \<Rightarrow> string \<Rightarrow> string \<Rightarrow> nat" where
  "countFrom re sn s =
     (case matchAt re sn s of
        Some m \<Rightarrow>
          if length (m_after m) < length s
          then Suc (countFrom re (rev (m_text m) @ sn) (m_after m))
          else Suc (case s of [] \<Rightarrow> 0 | c # cs \<Rightarrow> countFrom re (c # sn) cs)
      | None \<Rightarrow> (case s of [] \<Rightarrow> 0 | c # cs \<Rightarrow> countFrom re (c # sn) cs))"
  by pat_completeness auto
termination
  by (relation "measure (\<lambda>(re, sn, s). length s)") simp_all

declare countFrom.simps [simp del]

definition countMatches :: "regex \<Rightarrow> string \<Rightarrow> nat" where
  "countMatches re s = countFrom re [] s"

text \<open>
  A replacement given as a string is a template: \<open>$$\<close> stands for a dollar sign,
  \<open>$&\<close> for the matched text, \<open>$`\<close> for the text before the match and \<open>$'\<close> for the
  text after it. The expressions whose replacement is a template with a part taken from
  the schema have no capture group, so a dollar sign before a digit stands for itself.
\<close>

fun expand :: "rmatch \<Rightarrow> string \<Rightarrow> string" where
  "expand m [] = []"
| "expand m [c] = [c]"
| "expand m (c # d # cs) =
     (if c = CHR ''$'' then
        (if d = CHR ''$'' then CHR ''$'' # expand m cs
         else if d = CHR ''&'' then m_text m @ expand m cs
         else if d = CHR 0x60 then m_before m @ expand m cs
         else if d = squote then m_after m @ expand m cs
         else c # expand m (d # cs))
      else c # expand m (d # cs))"

text \<open>\<open>xs.join(sep)\<close>.\<close>

fun join :: "string \<Rightarrow> string list \<Rightarrow> string" where
  "join sep [] = []"
| "join sep [x] = x"
| "join sep (x # y # ys) = x @ sep @ join sep (y # ys)"

section \<open>Identifier repair: \<open>fixSqlQuery\<close>\<close>

text \<open>
  The spacing pass that opens and closes \<open>fixSqlQuery\<close>:
  \<open>.replace(/\s+/g, ' ').replace(/\s*,\s*/g, ', ').replace(/\s*\(\s*/g, '(').replace(/\s*\)\s*/g, ')')\<close>.
\<close>

definition around :: "char \<Rightarrow> regex" where
  "around c = seqs [RStar is_space, only c, RStar is_space]"

definition normalizeSpacing :: "string \<Rightarrow> string" where
  "normalizeSpacing s =
     replaceAll (around (CHR '')'')) (\<lambda>_. '')'')
       (replaceAll (around (CHR ''('')) (\<lambda>_. ''('')
          (replaceAll (around (CHR '','')) (\<lambda>_. '', '')
             (replaceAll (oneOrMore is_space) (\<lambda>_. '' '') s)))"

text \<open>
  The expressions that \<open>fixSqlQuery\<close> builds from a column name and from the table name
  hold the name as pattern text. A name without a syntax character of the pattern
  language (\<open>^ $ \ . * + ? ( ) [ ] { } |\<close>) is a literal there, and the expression is
  the one given below. For any other name the pattern is whatever the regular-expression
  engine makes of it, a \<open>SyntaxError\<close> included; the engine is then a parameter
  \<open>engine source template text\<close> that stands for
  \<open>text.replace(new RegExp(source, 'gi'), template)\<close>.
\<close>

type_synonym regex_engine = "string \<Rightarrow> string \<Rightarrow> string \<Rightarrow> js_error + string"

abbreviation backslash :: char where
  "backslash \<equiv> CHR 0x5C"

definition syntaxCharacters :: "char list" where
  "syntaxCharacters =
     [CHR ''^'', CHR ''$'', backslash, CHR ''.'', CHR ''*'', CHR ''+'', CHR ''?'',
      CHR ''('', CHR '')'', CHR ''['', CHR '']'', CHR ''{'', CHR ''}'', CHR ''|'']"

definition literalPattern :: "string \<Rightarrow> bool" where
  "literalPattern s = list_all (\<lambda>c. c \<notin> set syntaxCharacters) s"

text \<open>\<open>new RegExp(`\\b${lower}\\b(?!\\s*")`, 'gi')\<close> and its source text.\<close>

definition columnRegex :: "string \<Rightarrow> regex" where
  "columnRegex lower =
     seqs [RWordBoundary, ci lower, RWordBoundary,
           RNotAhead (seqs [RStar is_space, only dquote])]"



definition columnSource :: "string \<Rightarrow> string" where
  "columnSource lower =
     [backslash, CHR ''b''] @ lower @ [backslash, CHR ''b''] @ ''(?!'' @ [backslash] @ ''s*''
     @ [dquote] @ '')''"

definition quoted :: "string \<Rightarrow> string" where
  "quoted name = dquote # name @ [dquote]"

definition quoteColumn :: "regex_engine \<Rightarrow> string \<Rightarrow> string \<Rightarrow> string \<Rightarrow> js_error + string" where
  "quoteColumn engine lower proper fixedSql =
     (if literalPattern lower \<and> CHR ''$'' \<notin> set proper
      then Inr (replaceAll (columnRegex lower) (\<lambda>_. quoted proper) fixedSql)
      else engine (columnSource lower) (quoted proper) fixedSql)"

text \<open>
  The first \<open>forEach\<close> fills \<open>columnMap\<close>; \<open>colName.toLowerCase()\<close> throws for a
  column that has neither \<open>name\<close> nor \<open>column_name\<close>.
\<close>

definition undefinedToLowerCase :: js_error where
  "undefinedToLowerCase =
     TypeError (''Cannot read properties of undefined (reading '' @ [squote] @ ''toLowerCase''
                @ [squote] @ '')'')"

fun buildColumnMap :: "column list \<Rightarrow> string js_object \<Rightarrow> js_error + string js_object" where
  "buildColumnMap [] columnMap = Inr columnMap"
| "buildColumnMap (col # cols) columnMap =
     (case js_or (col_name col) (col_column_name col) of
        None \<Rightarrow> Inl undefinedToLowerCase
      | Some colName \<Rightarrow> buildColumnMap cols (obj_set columnMap (toLowerCase colName) colName))"

text \<open>The second \<open>forEach\<close>, over \<open>Object.entries(columnMap)\<close>.\<close>

fun quoteColumns :: "regex_engine \<Rightarrow> (string \<times> string) list \<Rightarrow> string \<Rightarrow> js_error + string" where
  "quoteColumns engine [] fixedSql = Inr fixedSql"
| "quoteColumns engine (entry # entries) fixedSql =
     (case quoteColumn engine (fst entry) (snd entry) fixedSql of
        Inl e \<Rightarrow> Inl e
      | Inr fixedSql' \<Rightarrow> quoteColumns engine entries fixedSql')"

text \<open>\<open>new RegExp(`\\bfrom\\s+${tableName}\\b`, 'gi')\<close>, replaced by \<open>FROM "tableName"\<close>.\<close>

definition tableRegex :: "string \<Rightarrow> regex" where
  "tableRegex tableName =
     seqs [RWordBoundary, ci ''from'', oneOrMore is_space, ci tableName, RWordBoundary]"

definition tableSource :: "string \<Rightarrow> string" where
  "tableSource tableName =
     [backslash] @ ''bfrom'' @ [backslash] @ ''s+'' @ tableName @ [backslash, CHR ''b'']"

definition quoteTable :: "regex_engine \<Rightarrow> string option \<Rightarrow> string \<Rightarrow> js_error + string" where
  "quoteTable engine tableName fixedSql =
     (case tableName of
        None \<Rightarrow> Inr fixedSql
      | Some t \<Rightarrow>
          if t = [] then Inr fixedSql
          else if literalPattern t \<and> CHR ''$'' \<notin> set t
          then Inr (replaceAll (tableRegex t) (\<lambda>_. ''FROM '' @ quoted t) fixedSql)
          else engine (tableSource t) (''FROM '' @ quoted t) fixedSql)"

text \<open>
  \<open>/FROM\s+"[^"]+"/gi\<close>, whose matches are counted, and
  \<open>new RegExp(`FROM\\s+"[^"]+"\\s*$`, 'i')\<close>, whose first match is deleted.
\<close>

definition notQuote :: "char \<Rightarrow> bool" where
  "notQuote c = (c \<noteq> dquote)"

definition fromClause :: regex where
  "fromClause = seqs [ci ''FROM'', oneOrMore is_space, only dquote, oneOrMore notQuote, only dquote]"

definition trailingFromClause :: regex where
  "trailingFromClause =
     seqs [ci ''FROM'', oneOrMore is_space, only dquote, oneOrMore notQuote, only dquote,
           RStar is_space, REnd]"

definition removeDuplicateFrom :: "string \<Rightarrow> string" where
  "removeDuplicateFrom fixedSql =
     (if countMatches fromClause fixedSql > 1
      then replaceFirst trailingFromClause (\<lambda>_. []) fixedSql
      else fixedSql)"

text \<open>\<open>.replace(/"([^"]*)"\s*"([^"]*)"/g, '"$1_$2"')\<close>.\<close>

definition brokenAlias :: regex where
  "brokenAlias =
     seqs [only dquote, RGroup 1 (RStar notQuote), only dquote, RStar is_space,
           only dquote, RGroup 2 (RStar notQuote), only dquote]"

definition fixBrokenAliases :: "string \<Rightarrow> string" where
  "fixBrokenAliases fixedSql =
     replaceAll brokenAlias (\<lambda>m. quoted (cap m 1 @ ''_'' @ cap m 2)) fixedSql"

text \<open>
  The body of the \<open>try\<close> block of \<open>fixSqlQuery\<close>, with the exceptions it can raise, and
  \<open>fixSqlQuery\<close> itself, whose \<open>catch\<close> block returns the statement it was given. A
  schema that is no array is \<open>None\<close>; a table name that is absent or empty is skipped.
\<close>

definition fixSqlQuery_try ::
  "regex_engine \<Rightarrow> string \<Rightarrow> column list option \<Rightarrow> string option \<Rightarrow> js_error + string" where
  "fixSqlQuery_try engine sql tableSchema tableName =
     (let fixedSql = normalizeSpacing sql
      in case (case tableSchema of
                 None \<Rightarrow> Inr fixedSql
               | Some cols \<Rightarrow>
                   (case buildColumnMap cols [] of
                      Inl e \<Rightarrow> Inl e
                    | Inr columnMap \<Rightarrow> quoteColumns engine (Object_entries columnMap) fixedSql)) of
           Inl e \<Rightarrow> Inl e
         | Inr fixedSql1 \<Rightarrow>
             (case quoteTable engine tableName fixedSql1 of
                Inl e \<Rightarrow> Inl e
              | Inr fixedSql2 \<Rightarrow>
                  Inr (trim (normalizeSpacing (fixBrokenAliases (removeDuplicateFrom fixedSql2))))))"

definition fixSqlQuery ::
  "regex_engine \<Rightarrow> string \<Rightarrow> column list option \<Rightarrow> string option \<Rightarrow> string" where
  "fixSqlQuery engine sql tableSchema tableName =
     (case fixSqlQuery_try engine sql tableSchema tableName of
        Inl e \<Rightarrow> sql
      | Inr fixedSql \<Rightarrow> fixedSql)"

section \<open>Logical repair: \<open>fixQueryLogic\<close>\<close>

text \<open>
  A value interpolated into a template literal: an absent one reads \<open>undefined\<close>.
\<close>

definition interpolate :: "string option \<Rightarrow> string" where
  "interpolate v = (case v of Some s \<Rightarrow> s | None \<Rightarrow> ''undefined'')"

definition orEmpty :: "string option \<Rightarrow> string" where
  "orEmpty v = (case v of Some s \<Rightarrow> s | None \<Rightarrow> [])"

definition includesAny :: "string \<Rightarrow> string list \<Rightarrow> bool" where
  "includesAny s ks = list_ex (\<lambda>k. includesStr s k) ks"

text \<open>\<open>colName.toLowerCase().includes(k1) || ...\<close>, which throws when there is no name.\<close>

definition nameIncludesAny :: "string option \<Rightarrow> string list \<Rightarrow> js_error + bool" where
  "nameIncludesAny colName ks =
     (case colName of
        None \<Rightarrow> Inl undefinedToLowerCase
      | Some n \<Rightarrow> Inr (includesAny (toLowerCase n) ks))"

text \<open>
  The \<open>forEach\<close> over the schema collects the date columns and the numeric columns (the
  category columns and \<open>columnTypes\<close> are never read). The tests on the name are reached
  only when the tests on the type before them did not decide.
\<close>

record column_lists =
  dateColumns :: "string option list"
  numericColumns :: "string option list"

definition classifyColumn :: "column_lists \<Rightarrow> column \<Rightarrow> js_error + column_lists" where
  "classifyColumn groups col =
     (let colName = js_or (col_name col) (col_column_name col);
          colType = toLowerCase (orEmpty (js_or (js_or (col_type col) (col_data_type col)) (Some [])))
      in case (if includesAny colType [''date'', ''time''] then Inr True
               else nameIncludesAny colName [''date'', ''day'']) of
           Inl e \<Rightarrow> Inl e
         | Inr isDate \<Rightarrow>
             (case (if includesAny colType [''int'', ''numeric'', ''decimal'', ''float'', ''double'']
                    then Inr True
                    else nameIncludesAny colName [''price'', ''total'', ''quantity'', ''amount'']) of
                Inl e \<Rightarrow> Inl e
              | Inr isNumeric \<Rightarrow>
                  (case (if includesAny colType [''char'', ''text'']
                         then nameIncludesAny colName [''category'', ''type'', ''status'', ''region'']
                         else Inr False) of
                     Inl e \<Rightarrow> Inl e
                   | Inr isCategory \<Rightarrow>
                       Inr \<lparr>dateColumns =
                              (if isDate then dateColumns groups @ [colName] else dateColumns groups),
                            numericColumns =
                              (if isNumeric then numericColumns groups @ [colName]
                               else numericColumns groups)\<rparr>)))"

fun classifyColumns :: "column list \<Rightarrow> column_lists \<Rightarrow> js_error + column_lists" where
  "classifyColumns [] groups = Inr groups"
| "classifyColumns (col # cols) groups =
     (case classifyColumn groups col of
        Inl e \<Rightarrow> Inl e
      | Inr groups' \<Rightarrow> classifyColumns cols groups')"

text \<open>
  Fix 1: \<open>/where\s+["']?category["']?\s+(?:=|ilike)\s+['"]camera['"]/i\<close>.
\<close>

definition is_quote :: "char \<Rightarrow> bool" where
  "is_quote c = (c = dquote \<or> c = squote)"

definition cameraFilter :: regex where
  "cameraFilter =
     seqs [ci ''where'', oneOrMore is_space, ROpt (RChar is_quote), ci ''category'',
           ROpt (RChar is_quote), oneOrMore is_space, RAlt (only (CHR ''='')) (ci ''ilike''),
           oneOrMore is_space, RChar is_quote, ci ''camera'', RChar is_quote]"

definition fixCameraFilter :: "string \<Rightarrow> string" where
  "fixCameraFilter sqlQuery =
     (if includesStr (toLowerCase sqlQuery) ''camera'' \<and> test cameraFilter sqlQuery
      then replaceFirst cameraFilter
             (\<lambda>m. expand m (''WHERE '' @ quoted ''Product'' @ '' ILIKE '' @ [squote] @ ''%camera%'' @ [squote]))
             sqlQuery
      else sqlQuery)"

text \<open>
  Fix 2: \<open>/GROUP BY\s+["']?month["']?/i\<close>, \<open>/select.*month/i\<close> and \<open>/SELECT\s+/i\<close>.
\<close>

definition monthWords :: "string list" where
  "monthWords =
     [''month'', ''january'', ''february'', ''march'', ''april'', ''may'', ''june'', ''july'',
      ''august'', ''september'', ''october'', ''november'', ''december'']"

definition groupByMonth :: regex where
  "groupByMonth =
     seqs [ci ''GROUP BY'', oneOrMore is_space, ROpt (RChar is_quote), ci ''month'',
           ROpt (RChar is_quote)]"

definition selectThenMonth :: regex where
  "selectThenMonth = seqs [ci ''select'', RStar (\<lambda>c. \<not> is_line_terminator c), ci ''month'']"

definition selectKeyword :: regex where
  "selectKeyword = seqs [ci ''SELECT'', oneOrMore is_space]"

definition toCharMonth :: "string \<Rightarrow> string" where
  "toCharMonth dateCol = ''TO_CHAR('' @ quoted dateCol @ '', '' @ [squote] @ ''Month'' @ [squote] @ '')''"

definition fixMonthGrouping :: "string option list \<Rightarrow> string \<Rightarrow> string" where
  "fixMonthGrouping dateCols fixedQuery =
     (if includesAny (toLowerCase fixedQuery) monthWords \<and> length dateCols > 0
         \<and> \<not> includesStr (toLowerCase fixedQuery) ''extract(month from''
         \<and> \<not> includesStr (toLowerCase fixedQuery) ''to_char''
         \<and> \<not> includesStr (toLowerCase fixedQuery) ''date_trunc''
         \<and> includesStr (toLowerCase fixedQuery) ''group by''
      then
        (let dateCol = interpolate (hd dateCols);
             fixedQuery1 =
               replaceFirst groupByMonth (\<lambda>m. expand m (''GROUP BY '' @ toCharMonth dateCol)) fixedQuery
         in if \<not> includesStr (toLowerCase fixedQuery1) ''to_char'' \<and> \<not> test selectThenMonth fixedQuery1
            then replaceFirst selectKeyword
                   (\<lambda>m. expand m (''SELECT '' @ toCharMonth dateCol @ '' AS '' @ quoted ''Month'' @ '', ''))
                   fixedQuery1
            else fixedQuery1)
      else fixedQuery)"

text \<open>
  Fix 3: \<open>/["']?\$(\d+(?:\.\d+)?)["']?/g\<close> and \<open>/(>=|<=|>|<|=)\s*(\d+(?:\.\d+)?)/g\<close>,
  both replaced through a function. \<open>numericColumns.find(...)\<close> throws at a column
  without a name.
\<close>

definition amount :: regex where
  "amount = RSeq (oneOrMore is_digit) (ROpt (RSeq (only (CHR ''.'')) (oneOrMore is_digit)))"

definition dollarAmount :: regex where
  "dollarAmount = seqs [ROpt (RChar is_quote), only (CHR ''$''), RGroup 1 amount, ROpt (RChar is_quote)]"

definition comparison :: regex where
  "comparison =
     seqs [RGroup 1 (RAlt (lit ''>='') (RAlt (lit ''<='')
             (RAlt (only (CHR ''>'')) (RAlt (only (CHR ''<'')) (only (CHR ''='')))))),
           RStar is_space, RGroup 2 amount]"

fun findAmountColumn :: "string option list \<Rightarrow> js_error + string option" where
  "findAmountColumn [] = Inr None"
| "findAmountColumn (col # cols) =
     (case col of
        None \<Rightarrow> Inl undefinedToLowerCase
      | Some n \<Rightarrow>
          if includesAny (toLowerCase n) [''price'', ''total'', ''amount''] then Inr (Some n)
          else findAmountColumn cols)"

definition fixDollarAmounts :: "string option list \<Rightarrow> string \<Rightarrow> js_error + string" where
  "fixDollarAmounts numericCols fixedQuery =
     (if includesStr (toLowerCase fixedQuery) ''$'' \<and> length numericCols > 0
      then
        (case findAmountColumn numericCols of
           Inl e \<Rightarrow> Inl e
         | Inr found \<Rightarrow>
             (let amountCol = (if falsy found then hd numericCols else found);
                  fixedQuery1 = replaceAll dollarAmount (\<lambda>m. cap m 1) fixedQuery
              in Inr (replaceAll comparison
                        (\<lambda>m. if dquote \<notin> set (m_text m)
                             then cap m 1 @ '' '' @ quoted (interpolate amountCol) @ '' '' @ cap m 2
                             else m_text m)
                        fixedQuery1)))
      else Inr fixedQuery)"

text \<open>
  Fix 4. \<open>numericColumns.find(...)\<close> returns the first column that the statement
  mentions; its second test throws at a column without a name. \<open>numericColumns[0]\<close> of
  an empty list is \<open>undefined\<close>.
\<close>

fun findMentionedColumn :: "string \<Rightarrow> string option list \<Rightarrow> js_error + string option" where
  "findMentionedColumn fixedQuery [] = Inr None"
| "findMentionedColumn fixedQuery (col # cols) =
     (if includesStr fixedQuery (quoted (interpolate col)) then Inr col
      else (case col of
              None \<Rightarrow> Inl undefinedToLowerCase
            | Some n \<Rightarrow>
                if includesStr (toLowerCase fixedQuery) (toLowerCase n) then Inr col
                else findMentionedColumn fixedQuery cols))"

definition first :: "string option list \<Rightarrow> string option" where
  "first xs = (case xs of [] \<Rightarrow> None | x # _ \<Rightarrow> x)"

definition fixRanking :: "string option list \<Rightarrow> string \<Rightarrow> js_error + string" where
  "fixRanking numericCols fixedQuery =
     (if includesAny (toLowerCase fixedQuery) [''highest'', ''most'', ''top'', ''maximum'']
         \<and> \<not> includesStr (toLowerCase fixedQuery) ''limit''
      then
        (if \<not> includesStr (toLowerCase fixedQuery) ''order by''
         then (case findMentionedColumn fixedQuery numericCols of
                 Inl e \<Rightarrow> Inl e
               | Inr found \<Rightarrow>
                   (let numCol = (if falsy found then first numericCols else found)
                    in if \<not> falsy numCol
                       then Inr (fixedQuery @ '' ORDER BY '' @ quoted (the numCol) @ '' DESC LIMIT 1'')
                       else Inr fixedQuery))
         else if \<not> includesStr (toLowerCase fixedQuery) ''limit''
         then Inr (fixedQuery @ '' LIMIT 1'')
         else Inr fixedQuery)
      else Inr fixedQuery)"

text \<open>
  \<open>fixQueryLogic\<close>; it has no \<open>try\<close> block, so what its steps throw leaves it.
\<close>

definition fixQueryLogic :: "string \<Rightarrow> column list option \<Rightarrow> js_error + string" where
  "fixQueryLogic sqlQuery tableSchema =
     (case (case tableSchema of
              None \<Rightarrow> Inr \<lparr>dateColumns = [], numericColumns = []\<rparr>
            | Some cols \<Rightarrow> classifyColumns cols \<lparr>dateColumns = [], numericColumns = []\<rparr>) of
        Inl e \<Rightarrow> Inl e
      | Inr groups \<Rightarrow>
          (case fixDollarAmounts (numericColumns groups)
                  (fixMonthGrouping (dateColumns groups) (fixCameraFilter sqlQuery)) of
             Inl e \<Rightarrow> Inl e
           | Inr fixedQuery \<Rightarrow> fixRanking (numericColumns groups) fixedQuery))"

section \<open>Validation of the generated statement and \<open>generateSQL\<close>\<close>

text \<open>
  \<open>validateSqlQuery\<close> of \<open>openai.js\<close> returns the list of what it found wrong. It has
  no list of keywords: its three harmful-statement patterns
  \<open>/;\s*drop\s+table/i\<close>, \<open>/;\s*delete\s+from/i\<close> and \<open>/;\s*truncate\s+table/i\<close>
  all start with a semicolon.
\<close>

definition harmful :: "string \<Rightarrow> string \<Rightarrow> regex" where
  "harmful verb object =
     seqs [only (CHR '';''), RStar is_space, ci verb, oneOrMore is_space, ci object]"

definition count_char :: "char \<Rightarrow> string \<Rightarrow> nat" where
  "count_char c s = length (filter (\<lambda>x. x = c) s)"

definition validateGeneratedSql :: "string \<Rightarrow> string list" where
  "validateGeneratedSql query =
     (if \<not> includesStr (toLowerCase query) ''select'' then [''Missing SELECT statement''] else [])
     @ (if \<not> includesStr (toLowerCase query) ''from'' then [''Missing FROM clause''] else [])
     @ (if test (harmful ''drop'' ''table'') query then [''Potential harmful query detected''] else [])
     @ (if test (harmful ''delete'' ''from'') query then [''Potential harmful query detected''] else [])
     @ (if test (harmful ''truncate'' ''table'') query then [''Potential harmful query detected''] else [])
     @ (if count_char dquote query mod 2 \<noteq> 0 then [''Unbalanced quotes''] else [])
     @ (if count_char (CHR ''('') query \<noteq> count_char (CHR '')'') query
        then [''Unbalanced parentheses''] else [])"

text \<open>
  \<open>extractNonAggregatedColumns\<close>: the columns of the schema that the text between
  \<open>SELECT\<close> and the first \<open>FROM\<close> after it (\<open>/SELECT(.*?)FROM/i\<close>) names in double
  quotes, other than as the argument of an aggregate function.
\<close>

definition selectClauseRegex :: regex where
  "selectClauseRegex =
     seqs [ci ''SELECT'', RGroup 1 (RLazy (\<lambda>c. \<not> is_line_terminator c)), ci ''FROM'']"

definition aggregateFunctions :: "string list" where
  "aggregateFunctions = [''COUNT'', ''SUM'', ''AVG'', ''MAX'', ''MIN'']"

definition extractNonAggregatedColumns :: "string \<Rightarrow> normalized_column list \<Rightarrow> string list" where
  "extractNonAggregatedColumns query sch =
     (let selectClause = (case search selectClauseRegex query of Some m \<Rightarrow> cap m 1 | None \<Rightarrow> [])
      in filter (\<lambda>colName. includesStr selectClause colName
                   \<and> \<not> list_ex (\<lambda>fn. includesStr selectClause (fn @ ''('' @ colName @ '')''))
                         aggregateFunctions)
           (map (\<lambda>col. quoted (nc_name col)) sch))"

text \<open>The body of the \<open>forEach\<close> over the query types that completes \<open>GROUP BY\<close>.\<close>

definition completeGroupBy :: "normalized_column list \<Rightarrow> string \<Rightarrow> string \<Rightarrow> string" where
  "completeGroupBy sch fixedQuery type =
     (case map_of QUERY_PATTERNS type of
        None \<Rightarrow> fixedQuery
      | Some pattern \<Rightarrow>
          if requiresGroupBy pattern \<and> \<not> includesStr (toLowerCase fixedQuery) ''group by''
          then (let nonAggregatedColumns = extractNonAggregatedColumns fixedQuery sch
                in if length nonAggregatedColumns > 0
                   then fixedQuery @ '' GROUP BY '' @ join '', '' nonAggregatedColumns
                   else fixedQuery)
          else fixedQuery)"

text \<open>
  A normalised column as \<open>fixSqlQuery\<close> and \<open>fixQueryLogic\<close> read it: it has the fields
  \<open>name\<close> and \<open>type\<close> and neither \<open>column_name\<close> nor \<open>data_type\<close>.
\<close>

definition asColumn :: "normalized_column \<Rightarrow> column" where
  "asColumn col =
     \<lparr>col_name = Some (nc_name col), col_column_name = None,
      col_type = Some (nc_type col), col_data_type = None\<rparr>"

text \<open>
  What \<open>generateSQL\<close> does with the cleaned answer: a first validation whose findings
  are only logged, the two repairs, the completion of \<open>GROUP BY\<close>, and the final
  validation, whose findings are thrown. The result pairs the logged warnings with the
  outcome.
\<close>

record generation =
  warnings :: "string list"
  generated :: "js_error + string"

definition repairAndValidate ::
  "regex_engine \<Rightarrow> string \<Rightarrow> normalized_column list \<Rightarrow> string list \<Rightarrow> string option \<Rightarrow> generation" where
  "repairAndValidate engine sqlQuery sch queryTypes tableName =
     (let validationErrors = validateGeneratedSql sqlQuery;
          fixedQuery = fixSqlQuery engine sqlQuery (Some (map asColumn sch)) tableName
      in \<lparr>warnings = validationErrors,
          generated =
            (case fixQueryLogic fixedQuery (Some (map asColumn sch)) of
               Inl e \<Rightarrow> Inl e
             | Inr fixedQuery1 \<Rightarrow>
                 (let fixedQuery2 = foldl (completeGroupBy sch) fixedQuery1 queryTypes;
                      finalValidationErrors = validateGeneratedSql fixedQuery2
                  in if length finalValidationErrors > 0
                     then Inl (Error (''Invalid SQL generated: '' @ join '', '' finalValidationErrors))
                     else Inr fixedQuery2))\<rparr>)"

text \<open>
  \<open>generateSQL\<close>. Whether the API key is set and the answer of the language model are
  parameters; the answer is either its text or the error that the request or the reading
  of the response raised. The \<open>catch\<close> block logs and rethrows.
\<close>

definition generateSQL ::
  "regex_engine \<Rightarrow> bool \<Rightarrow> js_error + string \<Rightarrow> string \<Rightarrow> column list option \<Rightarrow> string option
   \<Rightarrow> generation" where
  "generateSQL engine apiKey reply query tableSchema tableName =
     (if \<not> apiKey then \<lparr>warnings = [], generated = Inl (Error ''OpenRouter API key is not set'')\<rparr>
      else
        (case validateAndAdaptSchema tableSchema of
           Inl e \<Rightarrow> \<lparr>warnings = [], generated = Inl e\<rparr>
         | Inr validatedSchema \<Rightarrow>
             (case detectQueryType query (Some (map asColumn (schema validatedSchema))) of
                Inl e \<Rightarrow> \<lparr>warnings = [], generated = Inl e\<rparr>
              | Inr queryTypes \<Rightarrow>
                  (case reply of
                     Inl e \<Rightarrow> \<lparr>warnings = [], generated = Inl e\<rparr>
                   | Inr content \<Rightarrow>
                       repairAndValidate engine (stripNoise content) (schema validatedSchema)
                         queryTypes tableName))))"

section \<open>Properties of the pre-execution check\<close>


lemma sublist_map_dropWhile:
  assumes "\<And>c. P c \<Longrightarrow> f c \<notin> set k" and "sublist k (map f s)"
  shows "sublist k (map f (dropWhile P s))"
  using assms(2)
proof (induction s)
  case Nil
  then show ?case by simp
next
  case (Cons a s)
  show ?case
  proof (cases "P a")
    case True
    from Cons.prems have "prefix k (f a # map f s) \<or> sublist k (map f s)"
      by (simp add: sublist_Cons_right)
    moreover have "\<not> prefix k (f a # map f s) \<or> k = []"
      using assms(1)[OF True] by (cases k) auto
    ultimately have "sublist k (map f s)" by auto
    with Cons.IH True show ?thesis by simp
  next
    case False
    with Cons.prems show ?thesis by simp
  qed
qed

lemma sublist_map_rev_dropWhile:
  assumes "\<And>c. P c \<Longrightarrow> f c \<notin> set k" and "sublist k (map f s)"
  shows "sublist k (map f (rev (dropWhile P (rev s))))"
proof -
  have "sublist (rev k) (map f (rev s))"
    using assms(2) by (simp add: rev_map [symmetric])
  then have "sublist (rev k) (map f (dropWhile P (rev s)))"
    using assms(1) by (intro sublist_map_dropWhile) auto
  then have "sublist k (rev (map f (dropWhile P (rev s))))"
    by (simp only: sublist_rev_right)
  then show ?thesis
    by (simp only: rev_map)
qed

lemma drops_refl: "drops_underscores s s"
  by (induction s) (auto intro: drops_underscores.intros)

lemma drops_append: "drops_underscores s t \<Longrightarrow> drops_underscores (p @ s) (p @ t)"
  by (induction p) (auto intro: drops_underscores.intros)

lemma takeWhile_dropWhile_quote:
  "dropWhile (\<lambda>x. x \<noteq> dquote) r \<noteq> [] \<Longrightarrow>
   r = takeWhile (\<lambda>x. x \<noteq> dquote) r @ dquote # tl (dropWhile (\<lambda>x. x \<noteq> dquote) r)"
proof -
  assume ne: "dropWhile (\<lambda>x. x \<noteq> dquote) r \<noteq> []"
  then have "hd (dropWhile (\<lambda>x. x \<noteq> dquote) r) = dquote"
    using hd_dropWhile[of "\<lambda>x. x \<noteq> dquote" r] by simp
  with ne have "dropWhile (\<lambda>x. x \<noteq> dquote) r = dquote # tl (dropWhile (\<lambda>x. x \<noteq> dquote) r)"
    by (cases "dropWhile (\<lambda>x. x \<noteq> dquote) r") simp_all
  then show ?thesis
    using takeWhile_dropWhile_id[of "\<lambda>x. x \<noteq> dquote" r] by simp
qed

lemma fixUnderscoreInQuotes_drops: "drops_underscores s (fixUnderscoreInQuotes s)"
proof (induction s rule: fixUnderscoreInQuotes.induct)
  case 1
  show ?case by (simp add: drops_Nil)
next
  case (2 c cs)
  show ?case
  proof (cases cs)
    case Nil
    then show ?thesis by (simp add: drops_refl)
  next
    case (Cons u r)
    let ?body = "takeWhile (\<lambda>x. x \<noteq> dquote) r"
    let ?rest = "dropWhile (\<lambda>x. x \<noteq> dquote) r"
    show ?thesis
    proof (cases "c = dquote \<and> u = CHR ''_'' \<and> ?rest \<noteq> [] \<and> \<not> list_ex is_line_terminator ?body")
      case True
      then have r: "r = ?body @ dquote # tl ?rest"
        using takeWhile_dropWhile_quote by blast
      have "drops_underscores (tl ?rest) (fixUnderscoreInQuotes (tl ?rest))"
        using "2.IH"(1)[OF Cons refl refl] True by simp
      then have "drops_underscores (?body @ dquote # tl ?rest) (?body @ dquote # fixUnderscoreInQuotes (tl ?rest))"
        by (intro drops_append drops_keep)
      with r have "drops_underscores r (?body @ dquote # fixUnderscoreInQuotes (tl ?rest))"
        by simp
      then have "drops_underscores (dquote # CHR ''_'' # r) (dquote # ?body @ dquote # fixUnderscoreInQuotes (tl ?rest))"
        by (intro drops_keep drops_drop)
      with True Cons show ?thesis by (simp add: Let_def)
    next
      case False
      have "drops_underscores cs (fixUnderscoreInQuotes cs)"
        using "2.IH"(2)[OF Cons refl refl] False by blast
      with False Cons show ?thesis by (auto simp add: Let_def intro: drops_keep)
    qed
  qed
qed

lemma drops_map:
  assumes "drops_underscores s t" and "f (CHR ''_'') = CHR ''_''"
  shows "drops_underscores (map f s) (map f t)"
  using assms by (induction rule: drops_underscores.induct) (auto intro: drops_underscores.intros)

lemma drops_prefix:
  "drops_underscores s t \<Longrightarrow> CHR ''_'' \<notin> set k \<Longrightarrow> prefix k s \<Longrightarrow> prefix k t"
proof (induction arbitrary: k rule: drops_underscores.induct)
  case drops_Nil
  then show ?case by simp
next
  case (drops_keep s t c)
  then show ?case by (cases k) auto
next
  case (drops_drop s t)
  then show ?case by (cases k) auto
qed

lemma drops_sublist:
  "drops_underscores s t \<Longrightarrow> CHR ''_'' \<notin> set k \<Longrightarrow> sublist k s \<Longrightarrow> sublist k t"
proof (induction rule: drops_underscores.induct)
  case drops_Nil
  then show ?case by simp
next
  case (drops_keep s t c)
  have "prefix k (c # s) \<Longrightarrow> prefix k (c # t)"
    using drops_prefix[OF drops_underscores.drops_keep[OF drops_keep.hyps], of k c] drops_keep.prems(1)
    by blast
  moreover have "sublist k s \<Longrightarrow> sublist k t"
    using drops_keep.IH drops_keep.prems(1) by blast
  ultimately show ?case
    using drops_keep.prems(2) by (auto simp: sublist_Cons_right)
next
  case (drops_drop s t)
  from drops_drop.prems have "k = [] \<or> sublist k s"
    by (cases k) (auto simp: sublist_Cons_right)
  with drops_drop show ?case by auto
qed


lemma toLowerCase_char_space: "is_space c \<Longrightarrow> toLowerCase_char c = c"
  by (auto simp: is_space_def toLowerCase_char_def Let_def)

lemma keyword_no_space: "k \<in> set dangerousKeywords \<Longrightarrow> is_space c \<Longrightarrow> c \<notin> set k"
  by (auto simp: dangerousKeywords_def is_space_def)

lemma keyword_no_semicolon: "k \<in> set dangerousKeywords \<Longrightarrow> CHR '';'' \<notin> set k"
  by (auto simp: dangerousKeywords_def)

lemma keyword_no_underscore: "k \<in> set dangerousKeywords \<Longrightarrow> CHR ''_'' \<notin> set k"
  by (auto simp: dangerousKeywords_def)

lemma toLowerCase_char_fixed [simp]:
  "toLowerCase_char (CHR ''_'') = CHR ''_''" "toLowerCase_char (CHR '';'') = CHR '';''"
  by (simp_all add: toLowerCase_char_def)

lemma keyword_survives_trim:
  assumes "k \<in> set dangerousKeywords" and "includesStr (toLowerCase s) k"
  shows "includesStr (toLowerCase (trim s)) k"
proof -
  have sp: "\<And>c. is_space c \<Longrightarrow> toLowerCase_char c \<notin> set k"
    using assms(1) by (simp add: toLowerCase_char_space keyword_no_space)
  have "sublist k (map toLowerCase_char (dropWhile is_space s))"
    using assms(2) sp unfolding includesStr_def toLowerCase_def
    by (intro sublist_map_dropWhile)
  then have "sublist k (map toLowerCase_char (rev (dropWhile is_space (rev (dropWhile is_space s)))))"
    using sp by (intro sublist_map_rev_dropWhile)
  then show ?thesis
    by (simp add: includesStr_def toLowerCase_def trim_def trimEnd_def trimStart_def)
qed

lemma keyword_survives_stripTrailingSemicolons:
  assumes "k \<in> set dangerousKeywords" and "includesStr (toLowerCase s) k"
  shows "includesStr (toLowerCase (stripTrailingSemicolons s)) k"
proof -
  have "\<And>c. c = CHR '';'' \<Longrightarrow> toLowerCase_char c \<notin> set k"
    using keyword_no_semicolon[OF assms(1)] by simp
  then have "sublist k (map toLowerCase_char (rev (dropWhile (\<lambda>x. x = CHR '';'') (rev s))))"
    using assms(2) unfolding includesStr_def toLowerCase_def
    by (intro sublist_map_rev_dropWhile)
  then show ?thesis
    by (simp add: includesStr_def toLowerCase_def stripTrailingSemicolons_def)
qed

lemma keyword_survives_fixUnderscoreInQuotes:
  assumes "k \<in> set dangerousKeywords" and "includesStr (toLowerCase s) k"
  shows "includesStr (toLowerCase (fixUnderscoreInQuotes s)) k"
proof -
  have "drops_underscores (map toLowerCase_char s) (map toLowerCase_char (fixUnderscoreInQuotes s))"
    by (rule drops_map[OF fixUnderscoreInQuotes_drops]) simp
  then show ?thesis
    using keyword_no_underscore[OF assms(1)] assms(2)
    unfolding includesStr_def toLowerCase_def by (rule drops_sublist)
qed

lemma keyword_survives_prepareQuery:
  assumes "k \<in> set dangerousKeywords" and "includesStr (toLowerCase s) k"
  shows "includesStr (toLowerCase (prepareQuery s)) k"
proof -
  let ?s1 = "if includesStr s [dquote, CHR ''_''] then fixUnderscoreInQuotes s else s"
  have "includesStr (toLowerCase ?s1) k"
    using assms keyword_survives_fixUnderscoreInQuotes by simp
  then have "includesStr (toLowerCase (trim ?s1)) k"
    by (rule keyword_survives_trim[OF assms(1)])
  then have "includesStr (toLowerCase (stripTrailingSemicolons (trim ?s1))) k"
    by (rule keyword_survives_stripTrailingSemicolons[OF assms(1)])
  then show ?thesis by (simp only: prepareQuery_def)
qed

lemma hasInjectionAttempt_iff:
  "hasInjectionAttempt s \<longleftrightarrow> (\<exists>k \<in> set dangerousKeywords. includesStr (toLowerCase s) k)"
  by (simp add: hasInjectionAttempt_def list_ex_iff)

lemma validateSqlQuery_rejects_keyword:
  "hasInjectionAttempt q \<Longrightarrow> \<not> valid (validateSqlQuery q)"
  by (simp add: validateSqlQuery_def)

text \<open>
  Claim C9. The pre-execution check is a plain case-insensitive substring test: a
  statement whose lower-case form contains a disallowed keyword anywhere (inside a
  quoted identifier or a string literal as well) is not valid; when it starts with
  \<open>select\<close> the reason is the disallowed-keyword message; \<open>safeExecuteQuery\<close>
  sends nothing to the pool and throws.
\<close>

theorem validation_is_substring_test:
  assumes "keyword \<in> set dangerousKeywords"
    and "includesStr (toLowerCase sqlQuery) keyword"
  shows "\<not> valid (validateSqlQuery sqlQuery) \<and>
    (startsWith (toLowerCase (trim sqlQuery)) ''select'' \<longrightarrow>
       message (validateSqlQuery sqlQuery) = Some ''Query contains disallowed SQL keywords'') \<and>
    fst (safeExecuteQuery pool sqlQuery) = [] \<and>
    (\<exists>reason. snd (safeExecuteQuery pool sqlQuery) = Inl (Error reason))"
proof -
  have inj: "hasInjectionAttempt sqlQuery"
    using assms hasInjectionAttempt_iff by blast
  have a: "\<not> valid (validateSqlQuery sqlQuery)"
    using inj by (rule validateSqlQuery_rejects_keyword)
  have b: "startsWith (toLowerCase (trim sqlQuery)) ''select'' \<longrightarrow>
           message (validateSqlQuery sqlQuery) = Some ''Query contains disallowed SQL keywords''"
    using inj by (simp add: validateSqlQuery_def)
  have "hasInjectionAttempt (prepareQuery sqlQuery)"
    using assms keyword_survives_prepareQuery hasInjectionAttempt_iff by blast
  then have nv: "\<not> valid (validateSqlQuery (prepareQuery sqlQuery))"
    by (rule validateSqlQuery_rejects_keyword)
  have c: "fst (safeExecuteQuery pool sqlQuery) = []"
    using nv by (simp add: safeExecuteQuery_def Let_def)
  have d: "\<exists>reason. snd (safeExecuteQuery pool sqlQuery) = Inl (Error reason)"
    using nv by (simp add: safeExecuteQuery_def Let_def)
  from a b c d show ?thesis by blast
qed

theorem validation_is_substring_test_witness:
  "''create'' \<in> set dangerousKeywords \<and>
   includesStr (toLowerCase (''SELECT '' @ [dquote] @ ''created_at'' @ [dquote] @ '' FROM events'')) ''create'' \<and>
   startsWith (toLowerCase (trim (''SELECT '' @ [dquote] @ ''created_at'' @ [dquote] @ '' FROM events''))) ''select'' \<and>
   message (validateSqlQuery (''SELECT '' @ [dquote] @ ''created_at'' @ [dquote] @ '' FROM events'')) =
     Some ''Query contains disallowed SQL keywords'' \<and>
   fst (safeExecuteQuery (\<lambda>q. Inr ()) (''SELECT '' @ [dquote] @ ''created_at'' @ [dquote] @ '' FROM events'')) = []"
proof -
  let ?q = "''SELECT '' @ [dquote] @ ''created_at'' @ [dquote] @ '' FROM events''"
  have k: "''create'' \<in> set dangerousKeywords"
    by code_simp
  have i: "includesStr (toLowerCase ?q) ''create''"
    by code_simp
  have s: "startsWith (toLowerCase (trim ?q)) ''select''"
    by code_simp
  from validation_is_substring_test[OF k i, of "\<lambda>q. Inr ()"] k i s
  show ?thesis by simp
qed

section \<open>Properties of the intent classifier\<close>


lemma set_add_idem: "set_add (set_add types t) t = set_add types t"
  by (simp add: set_add_def)

lemma detectStep_qualifies:
  assumes "entry \<in> set QUERY_PATTERNS"
  shows "detectStep vs q types entry = (if qualifies vs q entry then set_add types (fst entry) else types)"
proof -
  consider "fst entry = ''aggregation''" | "fst entry = ''comparison''" | "fst entry = ''trending''"
    | "fst entry = ''ranking''" | "fst entry = ''distribution''" | "fst entry = ''temporal''"
    using assms by (auto simp: QUERY_PATTERNS_def)
  then show ?thesis
  proof cases
    case 1
    with assms have "snd entry = snd (QUERY_PATTERNS ! 0)"
      by (auto simp: QUERY_PATTERNS_def)
    with 1 show ?thesis
      by (simp add: QUERY_PATTERNS_def detectStep_def qualifies_def lexicalMatch_def contextMatch_def
          Let_def set_add_idem)
  next
    case 2
    with assms have "snd entry = snd (QUERY_PATTERNS ! 1)"
      by (auto simp: QUERY_PATTERNS_def)
    with 2 show ?thesis
      by (simp add: QUERY_PATTERNS_def detectStep_def qualifies_def lexicalMatch_def contextMatch_def
          Let_def set_add_idem)
  next
    case 3
    with assms have "snd entry = snd (QUERY_PATTERNS ! 2)"
      by (auto simp: QUERY_PATTERNS_def)
    with 3 show ?thesis
      by (simp add: QUERY_PATTERNS_def detectStep_def qualifies_def lexicalMatch_def contextMatch_def
          Let_def set_add_idem)
  next
    case 4
    with assms have "snd entry = snd (QUERY_PATTERNS ! 3)"
      by (auto simp: QUERY_PATTERNS_def)
    with 4 show ?thesis
      by (simp add: QUERY_PATTERNS_def detectStep_def qualifies_def lexicalMatch_def contextMatch_def
          Let_def set_add_idem)
  next
    case 5
    with assms have "snd entry = snd (QUERY_PATTERNS ! 4)"
      by (auto simp: QUERY_PATTERNS_def)
    with 5 show ?thesis
      by (simp add: QUERY_PATTERNS_def detectStep_def qualifies_def lexicalMatch_def contextMatch_def
          Let_def set_add_idem)
  next
    case 6
    with assms have "snd entry = snd (QUERY_PATTERNS ! 5)"
      by (auto simp: QUERY_PATTERNS_def)
    with 6 show ?thesis
      by (simp add: QUERY_PATTERNS_def detectStep_def qualifies_def lexicalMatch_def contextMatch_def
          Let_def set_add_idem)
  qed
qed

lemma foldl_set_add_filter:
  assumes "\<And>types e. e \<in> set es \<Longrightarrow> f types e = (if Q e then set_add types (fst e) else types)"
    and "distinct (map fst es)"
    and "set (map fst es) \<inter> set acc = {}"
  shows "foldl f acc es = acc @ map fst (filter Q es)"
  using assms
proof (induction es arbitrary: acc)
  case Nil
  then show ?case by simp
next
  case (Cons e es)
  have step: "f acc e = (if Q e then acc @ [fst e] else acc)"
    using Cons.prems(1)[of e acc] Cons.prems(3) by (auto simp: set_add_def)
  have "foldl f (f acc e) es = f acc e @ map fst (filter Q es)"
  proof (rule Cons.IH)
    show "\<And>types e'. e' \<in> set es \<Longrightarrow> f types e' = (if Q e' then set_add types (fst e') else types)"
      using Cons.prems(1) by simp
    show "distinct (map fst es)"
      using Cons.prems(2) by simp
    show "set (map fst es) \<inter> set (f acc e) = {}"
      using Cons.prems(2,3) step by auto
  qed
  with step show ?case by simp
qed

lemma QUERY_PATTERNS_distinct: "distinct (map fst QUERY_PATTERNS)"
  by (simp add: QUERY_PATTERNS_def)

lemma detectQueryType_filter:
  assumes "validateAndAdaptSchema sch = Inr vs"
  shows "detectQueryType query sch =
     Inr (let types = map fst (filter (qualifies vs (toLowerCase query)) QUERY_PATTERNS)
          in if types = [] then [''general''] else types)"
proof -
  have "foldl (detectStep vs (toLowerCase query)) [] QUERY_PATTERNS
      = [] @ map fst (filter (qualifies vs (toLowerCase query)) QUERY_PATTERNS)"
    by (rule foldl_set_add_filter) (simp_all add: detectStep_qualifies QUERY_PATTERNS_distinct)
  with assms show ?thesis
    by (simp add: detectQueryType_def Let_def)
qed


text \<open>
  Claim C2, as the code has it. An intent other than \<open>general\<close> is in the result only
  if the schema has every column type the intent requires and either one of its lexical
  tests (pattern or keyword) matches the query or a context-based addition applies
  (\<open>temporal\<close> always; \<open>aggregation\<close> and \<open>ranking\<close> when the query contains
  \<open>total\<close> or \<open>most\<close>); every entry that qualifies so is in the result; and
  \<open>general\<close> is in the result exactly when no entry qualifies.
\<close>

theorem intent_added_iff_qualifies:
  assumes "validateAndAdaptSchema sch = Inr vs"
    and "detectQueryType query sch = Inr types"
  shows "(intent \<in> set types \<and> intent \<noteq> ''general'' \<longrightarrow>
           (\<exists>config required. (intent, config) \<in> set QUERY_PATTERNS
              \<and> requiredColumnTypes config = Some required
              \<and> list_all (hasColumnType vs) required
              \<and> (lexicalMatch config (toLowerCase query) \<or> contextMatch intent (toLowerCase query))))
       \<and> ((intent, config') \<in> set QUERY_PATTERNS \<and> qualifies vs (toLowerCase query) (intent, config')
            \<longrightarrow> intent \<in> set types)
       \<and> (''general'' \<in> set types \<longleftrightarrow>
            \<not> list_ex (qualifies vs (toLowerCase query)) QUERY_PATTERNS)"
proof -
  let ?Q = "qualifies vs (toLowerCase query)"
  let ?ts = "map fst (filter ?Q QUERY_PATTERNS)"
  have types: "types = (if ?ts = [] then [''general''] else ?ts)"
    using detectQueryType_filter[OF assms(1), of query] assms(2) by (simp add: Let_def)
  have no_general: "''general'' \<notin> fst ` set QUERY_PATTERNS"
    by (simp add: QUERY_PATTERNS_def)
  have required: "\<And>e. e \<in> set QUERY_PATTERNS \<Longrightarrow> \<exists>r. requiredColumnTypes (snd e) = Some r"
    by (auto simp: QUERY_PATTERNS_def)
  have a: "intent \<in> set types \<and> intent \<noteq> ''general'' \<longrightarrow>
           (\<exists>config required. (intent, config) \<in> set QUERY_PATTERNS
              \<and> requiredColumnTypes config = Some required
              \<and> list_all (hasColumnType vs) required
              \<and> (lexicalMatch config (toLowerCase query) \<or> contextMatch intent (toLowerCase query)))"
  proof (intro impI, elim conjE)
    assume "intent \<in> set types" and "intent \<noteq> ''general''"
    with types have "intent \<in> set ?ts"
      by (auto split: if_splits)
    then obtain config where e: "(intent, config) \<in> set QUERY_PATTERNS" and q: "?Q (intent, config)"
      by auto
    from required[OF e] obtain r where r: "requiredColumnTypes config = Some r"
      by auto
    with q have "list_all (hasColumnType vs) r
        \<and> (lexicalMatch config (toLowerCase query) \<or> contextMatch intent (toLowerCase query))"
      by (simp add: qualifies_def)
    with e r show "\<exists>config required. (intent, config) \<in> set QUERY_PATTERNS
              \<and> requiredColumnTypes config = Some required
              \<and> list_all (hasColumnType vs) required
              \<and> (lexicalMatch config (toLowerCase query) \<or> contextMatch intent (toLowerCase query))"
      by blast
  qed
  have b: "(intent, config') \<in> set QUERY_PATTERNS \<and> ?Q (intent, config') \<longrightarrow> intent \<in> set types"
  proof (intro impI, elim conjE)
    assume "(intent, config') \<in> set QUERY_PATTERNS" and "?Q (intent, config')"
    then have m: "(intent, config') \<in> set (filter ?Q QUERY_PATTERNS)"
      by simp
    then have "intent \<in> set ?ts"
      by force
    moreover from m have "filter ?Q QUERY_PATTERNS \<noteq> []"
      by (cases "filter ?Q QUERY_PATTERNS") simp_all
    ultimately show "intent \<in> set types"
      using types by simp
  qed
  have c: "''general'' \<in> set types \<longleftrightarrow> \<not> list_ex ?Q QUERY_PATTERNS"
  proof
    assume g: "''general'' \<in> set types"
    have "''general'' \<notin> set ?ts"
      using no_general by auto
    with g types have "?ts = []"
      by (auto split: if_splits)
    then show "\<not> list_ex ?Q QUERY_PATTERNS"
      by (simp add: list_ex_iff filter_empty_conv)
  next
    assume "\<not> list_ex ?Q QUERY_PATTERNS"
    then have "?ts = []"
      by (simp add: list_ex_iff filter_empty_conv)
    with types show "''general'' \<in> set types"
      by simp
  qed
  from a b c show ?thesis by blast
qed

theorem intent_added_iff_qualifies_witness:
  "detectQueryType ''What is the total revenue?'' revenue_schema = Inr [''aggregation'', ''ranking'']
   \<and> (''ranking'', ranking_config) \<in> set QUERY_PATTERNS
   \<and> \<not> lexicalMatch ranking_config (toLowerCase ''What is the total revenue?'')
   \<and> contextMatch ''ranking'' (toLowerCase ''What is the total revenue?'')
   \<and> ''general'' \<notin> set [''aggregation'', ''ranking'']"
proof -
  let ?vs = "\<lparr>schema = [\<lparr>nc_name = ''revenue'', nc_type = ''NUMERIC''\<rparr>], group_date = [],
              group_numeric = [\<lparr>nc_name = ''revenue'', nc_type = ''NUMERIC''\<rparr>],
              group_text = [], group_boolean = []\<rparr>"
  have v: "validateAndAdaptSchema revenue_schema = Inr ?vs"
    by code_simp
  have d: "detectQueryType ''What is the total revenue?'' revenue_schema = Inr [''aggregation'', ''ranking'']"
    by code_simp
  have e: "(''ranking'', ranking_config) \<in> set QUERY_PATTERNS"
    by code_simp
  have q: "qualifies ?vs (toLowerCase ''What is the total revenue?'') (''ranking'', ranking_config)"
    by code_simp
  have l: "\<not> lexicalMatch ranking_config (toLowerCase ''What is the total revenue?'')"
    by code_simp
  have c: "contextMatch ''ranking'' (toLowerCase ''What is the total revenue?'')"
    by code_simp
  from intent_added_iff_qualifies[OF v d, of "''ranking''" ranking_config] e q
  have "''ranking'' \<in> set [''aggregation'', ''ranking'']"
    by blast
  with d e l c show ?thesis by simp
qed

text \<open>
  Claim C2 as stated fails: with a date column in the schema, \<open>temporal\<close> is returned
  for a query that matches neither its pattern nor its keywords.
\<close>

theorem intent_without_pattern_counterexample:
  "detectQueryType ''hello'' date_schema = Inr [''temporal'']
   \<and> (''temporal'', temporal_config) \<in> set QUERY_PATTERNS
   \<and> \<not> patterns_test temporal_config (toLowerCase ''hello'')
   \<and> \<not> list_ex (\<lambda>keyword. includesStr (toLowerCase ''hello'') keyword) (cfg_keywords temporal_config)"
  by code_simp

section \<open>Properties of table selection\<close>

text \<open>
  Claim C7. When the request names no table, the query text is present (not absent and
  not empty) and the catalog query returns exactly one data table (base tables of the
  public schema without the bookkeeping tables), \<open>processQuery\<close> goes on with that
  table: the catalog read is its only database call and no relevance score is computed.
\<close>

theorem single_table_selected_without_scoring:
  assumes "\<not> falsy (js_or (body_query body) (body_userQuery body))"
    and "falsy (body_tableName body)"
    and "db_tables db = Inr cat"
    and "dataTables cat = [t]"
  shows "processQuery db body =
           \<lparr>calls = [QueryTables], relevanceScores = None, outcome = ProcessWithTable t\<rparr>"
  using assms by (simp add: processQuery_def)

theorem single_table_selected_without_scoring_witness:
  "\<not> falsy (js_or (body_query revenue_request) (body_userQuery revenue_request))
   \<and> falsy (body_tableName revenue_request)
   \<and> dataTables (projr (db_tables sales_only_db)) = [''sales'']
   \<and> processQuery sales_only_db revenue_request =
       \<lparr>calls = [QueryTables], relevanceScores = None, outcome = ProcessWithTable ''sales''\<rparr>"
proof -
  have a: "\<not> falsy (js_or (body_query revenue_request) (body_userQuery revenue_request))"
    by code_simp
  have b: "falsy (body_tableName revenue_request)"
    by code_simp
  have c: "db_tables sales_only_db = Inr (projr (db_tables sales_only_db))"
    by (simp add: sales_only_db_def)
  have d: "dataTables (projr (db_tables sales_only_db)) = [''sales'']"
    by code_simp
  from single_table_selected_without_scoring[OF a b c d] a b d show ?thesis
    by simp
qed

section \<open>Properties of the result shaper\<close>

lemma find_by_filter: "find P xs = (case filter P xs of [] \<Rightarrow> None | x # _ \<Rightarrow> Some x)"
  by (induction xs) simp_all

lemma filter_first: "filter P xs \<noteq> [] \<Longrightarrow> find P xs = Some (filter P xs ! 0)"
  by (simp add: find_by_filter split: list.splits)

lemma find_other_key:
  assumes "distinct keys" and "2 \<le> length keys"
  shows "\<exists>l. find (\<lambda>key. key \<noteq> v) keys = Some l"
proof -
  obtain a b rest where k: "keys = a # b # rest"
    using assms(2) by (cases keys; cases "tl keys") auto
  with assms(1) have "a \<noteq> b" by simp
  then have "a \<noteq> v \<or> b \<noteq> v" by blast
  with k show ?thesis by auto
qed

lemma inferChart_attempted:
  assumes "inferChart query rows \<noteq> None"
  shows "0 < length rows \<and> length rows \<le> 50 \<and> 2 \<le> length (Object_keys (hd rows))"
proof -
  from assms have n: "0 < length rows \<and> length rows \<le> 50"
    by (auto simp: inferChart_def split: if_splits)
  then have "rows ! 0 = hd rows"
    by (simp add: hd_conv_nth)
  with assms n have "2 \<le> length (Object_keys (hd rows))"
    by (auto simp: inferChart_def Let_def split: if_splits)
  with n show ?thesis by simp
qed

lemma inferChart_first_row:
  assumes n: "0 < length rows" "length rows \<le> 50"
    and k: "2 \<le> length (Object_keys (hd rows))"
    and d: "distinct (Object_keys (hd rows))"
    and e: "[] \<notin> set (Object_keys (hd rows))"
  shows "case find (\<lambda>key. \<not> isNaN (Number (getField (hd rows) key))) (Object_keys (hd rows)) of
           None \<Rightarrow> inferChart query rows = None
         | Some valueColumn \<Rightarrow>
             (\<exists>c labelColumn. inferChart query rows = Some c
                \<and> dataset_label c = valueColumn
                \<and> dataset_data c = map (\<lambda>r. Number (getField r valueColumn)) rows
                \<and> find (\<lambda>key. key \<noteq> valueColumn) (Object_keys (hd rows)) = Some labelColumn
                \<and> chart_labels c = map (\<lambda>r. getField r labelColumn) rows)"
proof -
  let ?keys = "Object_keys (hd rows)"
  let ?P = "\<lambda>key. \<not> isNaN (Number (getField (hd rows) key))"
  have r0: "rows ! 0 = hd rows"
    using n(1) by (simp add: hd_conv_nth)
  show ?thesis
  proof (cases "filter ?P ?keys = []")
    case True
    then have "find ?P ?keys = None"
      by (simp add: find_by_filter)
    moreover have "inferChart query rows = None"
      using True n k r0 by (simp add: inferChart_def Let_def)
    ultimately show ?thesis by simp
  next
    case False
    let ?v = "filter ?P ?keys ! 0"
    have f: "find ?P ?keys = Some ?v"
      using False by (rule filter_first)
    obtain l where l: "find (\<lambda>key. key \<noteq> ?v) ?keys = Some l"
      using find_other_key[OF d k] by blast
    then have "l \<in> set ?keys"
      by (auto simp: find_Some_iff)
    with e have "l \<noteq> []" by blast
    with l False n k r0 have "inferChart query rows =
        Some \<lparr>chart_type = chooseChartType query l (length rows),
              chart_labels = map (\<lambda>r. getField r l) rows,
              dataset_label = ?v,
              dataset_data = map (\<lambda>r. Number (getField r ?v)) rows\<rparr>"
      by (simp add: inferChart_def Let_def)
    with f l show ?thesis by simp
  qed
qed

text \<open>
  Claim C6, as the code has it. A chart is produced only when there are between 1 and 50
  rows and the first row has at least two columns. Then, the keys of the first row being
  distinct and non-empty, the value series is the first key whose value in the first row
  converts to a number (no chart when there is none), with \<open>Number\<close> applied to that
  column in every row, and the label series is the first other key.
\<close>

theorem chart_inference_first_row:
  "(chart_data (formatQueryResults toStr query rows) \<noteq> None \<longrightarrow>
      0 < length rows \<and> length rows \<le> 50 \<and> 2 \<le> length (Object_keys (hd rows)))
   \<and> (0 < length rows \<and> length rows \<le> 50 \<and> 2 \<le> length (Object_keys (hd rows))
        \<and> distinct (Object_keys (hd rows)) \<and> [] \<notin> set (Object_keys (hd rows)) \<longrightarrow>
        (case find (\<lambda>key. \<not> isNaN (Number (getField (hd rows) key))) (Object_keys (hd rows)) of
           None \<Rightarrow> chart_data (formatQueryResults toStr query rows) = None
         | Some valueColumn \<Rightarrow>
             (\<exists>c labelColumn. chart_data (formatQueryResults toStr query rows) = Some c
                \<and> dataset_label c = valueColumn
                \<and> dataset_data c = map (\<lambda>r. Number (getField r valueColumn)) rows
                \<and> find (\<lambda>key. key \<noteq> valueColumn) (Object_keys (hd rows)) = Some labelColumn
                \<and> chart_labels c = map (\<lambda>r. getField r labelColumn) rows)))"
proof -
  have cd: "chart_data (formatQueryResults toStr query rows) = inferChart query rows"
    by (simp add: formatQueryResults_def)
  show ?thesis
    unfolding cd using inferChart_attempted[of query rows] inferChart_first_row[of rows query]
    by blast
qed

theorem chart_inference_first_row_witness:
  "chart_data (formatQueryResults jsString ''total by category'' category_rows) =
     Some \<lparr>chart_type = ''bar'', chart_labels = [JStr ''Electronics'', JStr ''Toys''],
           dataset_label = ''total_revenue'', dataset_data = [Finite 2850, Finite (241 / 2)]\<rparr>
   \<and> 0 < length category_rows \<and> length category_rows \<le> 50
   \<and> 2 \<le> length (Object_keys (hd category_rows))
   \<and> distinct (Object_keys (hd category_rows)) \<and> [] \<notin> set (Object_keys (hd category_rows))
   \<and> find (\<lambda>key. \<not> isNaN (Number (getField (hd category_rows) key))) (Object_keys (hd category_rows))
       = Some ''total_revenue''
   \<and> find (\<lambda>key. key \<noteq> ''total_revenue'') (Object_keys (hd category_rows)) = Some ''category''"
proof -
  have c: "chart_data (formatQueryResults jsString ''total by category'' category_rows) =
     Some \<lparr>chart_type = ''bar'', chart_labels = [JStr ''Electronics'', JStr ''Toys''],
           dataset_label = ''total_revenue'', dataset_data = [Finite 2850, Finite (241 / 2)]\<rparr>"
    by code_simp
  have h: "0 < length category_rows \<and> length category_rows \<le> 50
      \<and> 2 \<le> length (Object_keys (hd category_rows))
      \<and> distinct (Object_keys (hd category_rows)) \<and> [] \<notin> set (Object_keys (hd category_rows))"
    by code_simp
  have f: "find (\<lambda>key. \<not> isNaN (Number (getField (hd category_rows) key))) (Object_keys (hd category_rows))
       = Some ''total_revenue''"
    by code_simp
  have l: "find (\<lambda>key. key \<noteq> ''total_revenue'') (Object_keys (hd category_rows)) = Some ''category''"
    by code_simp
  from chart_inference_first_row[of jsString "''total by category''" category_rows] h
  have "case find (\<lambda>key. \<not> isNaN (Number (getField (hd category_rows) key))) (Object_keys (hd category_rows)) of
           None \<Rightarrow> chart_data (formatQueryResults jsString ''total by category'' category_rows) = None
         | Some valueColumn \<Rightarrow>
             (\<exists>c labelColumn. chart_data (formatQueryResults jsString ''total by category'' category_rows) = Some c
                \<and> dataset_label c = valueColumn
                \<and> dataset_data c = map (\<lambda>r. Number (getField r valueColumn)) category_rows
                \<and> find (\<lambda>key. key \<noteq> valueColumn) (Object_keys (hd category_rows)) = Some labelColumn
                \<and> chart_labels c = map (\<lambda>r. getField r labelColumn) category_rows)"
    by (rule conjunct2 [THEN mp])
  with f have "\<exists>c. chart_data (formatQueryResults jsString ''total by category'' category_rows) = Some c
          \<and> dataset_label c = ''total_revenue''"
    by (simp only: option.case) blast
  with c h f l show ?thesis by (simp only: simp_thms)
qed

text \<open>
  Claim C6 as stated fails: only the first row is tested. Here the first column has a
  value in the second row that is not numeric and is taken as the value series all the
  same, while the first column whose values are all numeric is the second one.
\<close>

theorem chart_value_column_counterexample:
  "dataset_label (the (chart_data (formatQueryResults jsString ''amounts'' mixed_rows))) = ''amount''
   \<and> dataset_data (the (chart_data (formatQueryResults jsString ''amounts'' mixed_rows))) = [Finite 10, NaN]
   \<and> \<not> allNumeric mixed_rows ''amount''
   \<and> find (allNumeric mixed_rows) (Object_keys (hd mixed_rows)) = Some ''units''"
  by code_simp
section \<open>Properties of noise stripping\<close>


























section \<open>Properties of type inference\<close>

lemma quotient_of_pos:
  assumes "a > 0"
  shows "fst (quotient_of a) > 0" "snd (quotient_of a) > 0"
    "a = of_int (fst (quotient_of a)) / of_int (snd (quotient_of a))"
proof -
  obtain n d where q: "quotient_of a = (n, d)"
    by (cases "quotient_of a")
  then have d: "d > 0"
    by (rule quotient_of_denom_pos)
  from q have a: "a = of_int n / of_int d"
    by (rule quotient_of_div)
  from a d assms have "n > 0"
    by (simp add: zero_less_divide_iff)
  with q d a show "fst (quotient_of a) > 0" "snd (quotient_of a) > 0"
    "a = of_int (fst (quotient_of a)) / of_int (snd (quotient_of a))"
    by simp_all
qed

lemma bitlen_bounds_rat:
  assumes "x > 0"
  shows "(2::rat) powi (bitlen x - 1) \<le> of_int x" "(of_int x :: rat) < 2 powi (bitlen x)"
proof -
  from bitlen_bounds[OF assms] have b: "2 ^ nat (bitlen x - 1) \<le> x" "x < 2 ^ nat (bitlen x)"
    by simp_all
  have ge1: "bitlen x \<ge> 1"
    using assms by (simp add: bitlen_alt_def)
  have "(of_int (2 ^ nat (bitlen x - 1)) :: rat) \<le> of_int x"
    using b(1) by (simp only: of_int_le_iff)
  then show "(2::rat) powi (bitlen x - 1) \<le> of_int x"
    using ge1 by (simp add: power_int_def)
  have "(of_int x :: rat) < of_int (2 ^ nat (bitlen x))"
    using b(2) by (simp only: of_int_less_iff)
  then show "(of_int x :: rat) < 2 powi (bitlen x)"
    using ge1 by (simp add: power_int_def)
qed

lemma floorLog2_bounds:
  assumes "a > 0"
  shows "2 powi (floorLog2 a) \<le> a \<and> a < 2 powi (floorLog2 a + 1)"
proof -
  let ?n = "fst (quotient_of a)" and ?d = "snd (quotient_of a)"
  let ?k = "bitlen ?n - bitlen ?d"
  note q = quotient_of_pos[OF assms]
  have dr: "(of_int ?d :: rat) > 0"
    using q(2) by simp
  note bn = bitlen_bounds_rat[OF q(1)]
  note bd = bitlen_bounds_rat[OF q(2)]
  have up: "a < 2 powi (?k + 1)"
  proof -
    have "of_int ?n < (2::rat) powi (bitlen ?n)"
      by (rule bn(2))
    also have "\<dots> = 2 powi (?k + 1) * 2 powi (bitlen ?d - 1)"
      by (simp add: power_int_add [symmetric])
    also have "\<dots> \<le> 2 powi (?k + 1) * of_int ?d"
      using bd(1) by (simp add: mult_left_mono)
    finally have "of_int ?n / of_int ?d < (2::rat) powi (?k + 1)"
      using dr by (simp add: pos_divide_less_eq)
    with q(3) show ?thesis by simp
  qed
  have lo: "2 powi (?k - 1) \<le> a"
  proof -
    have "(2::rat) powi (?k - 1) * of_int ?d \<le> 2 powi (?k - 1) * 2 powi (bitlen ?d)"
      using bd(2) by (simp add: mult_left_mono)
    also have "\<dots> = 2 powi (bitlen ?n - 1)"
      by (simp add: power_int_add [symmetric])
    also have "\<dots> \<le> of_int ?n"
      by (rule bn(1))
    finally have "(2::rat) powi (?k - 1) \<le> of_int ?n / of_int ?d"
      using dr by (simp add: pos_le_divide_eq)
    with q(3) show ?thesis by simp
  qed
  show ?thesis
  proof (cases "2 powi ?k \<le> a")
    case True
    then have "floorLog2 a = ?k"
      by (simp add: floorLog2_def Let_def)
    with True up show ?thesis by simp
  next
    case False
    then have "floorLog2 a = ?k - 1"
      by (simp add: floorLog2_def Let_def)
    with False lo show ?thesis by simp
  qed
qed

lemma powi_two_mono: "i \<le> j \<Longrightarrow> (2::rat) powi i \<le> 2 powi j"
  by (rule power_int_increasing) simp_all

lemma floorLog2_unique:
  assumes "a > 0" and "2 powi k \<le> a" and "a < 2 powi (k + 1)"
  shows "floorLog2 a = k"
proof -
  let ?e = "floorLog2 a"
  from floorLog2_bounds[OF assms(1)] have b: "2 powi ?e \<le> a" "a < 2 powi (?e + 1)"
    by simp_all
  have "\<not> ?e + 1 \<le> k"
  proof
    assume "?e + 1 \<le> k"
    then have "(2::rat) powi (?e + 1) \<le> 2 powi k"
      by (rule powi_two_mono)
    with b(2) assms(2) show False by simp
  qed
  moreover have "\<not> k + 1 \<le> ?e"
  proof
    assume "k + 1 \<le> ?e"
    then have "(2::rat) powi (k + 1) \<le> 2 powi ?e"
      by (rule powi_two_mono)
    with b(1) assms(3) show False by simp
  qed
  ultimately show ?thesis by simp
qed

lemma roundHalfEven_of_int: "roundHalfEven (of_int k) = k"
  by (simp add: roundHalfEven_def)

lemma roundHalfEven_ge_floor: "roundHalfEven x \<ge> \<lfloor>x\<rfloor>"
  by (simp add: roundHalfEven_def Let_def)

lemma roundHalfEven_le: "of_int (roundHalfEven x) \<le> x + 1 / 2"
proof -
  have f: "of_int \<lfloor>x\<rfloor> \<le> x"
    by simp
  consider "x - of_int \<lfloor>x\<rfloor> < 1 / 2" | "\<not> x - of_int \<lfloor>x\<rfloor> < 1 / 2"
    by blast
  then show ?thesis
  proof cases
    case 1
    then have "roundHalfEven x = \<lfloor>x\<rfloor>"
      by (simp add: roundHalfEven_def Let_def)
    with f show ?thesis by linarith
  next
    case 2
    then have "roundHalfEven x = \<lfloor>x\<rfloor> \<or> roundHalfEven x = \<lfloor>x\<rfloor> + 1"
      by (simp add: roundHalfEven_def Let_def)
    then have "(of_int (roundHalfEven x) :: rat) \<le> of_int \<lfloor>x\<rfloor> + 1"
      by auto
    with 2 show ?thesis by linarith
  qed
qed

lemma powi_neg53: "(2::rat) powi (- 53) = 1 / 2 ^ 53"
  by (simp add: power_int_def field_simps)

lemma literal_07: "literal (7 / 10) = 3152519739159347 / 4503599627370496"
  by code_simp

lemma roundToDouble_one: "roundToDouble 1 = Finite 1"
  by code_simp

lemma roundToDouble_upper_half:
  assumes "7 / 10 \<le> q" and "q < 1"
  shows "\<exists>r. roundToDouble q = Finite r \<and> r \<ge> 3152519739159347 / 4503599627370496"
proof -
  have q0: "q > 0" using assms(1) by simp
  have e: "floorLog2 q = - 1"
  proof (rule floorLog2_unique[OF q0])
    show "2 powi (- 1) \<le> q"
      using assms(1) by (simp add: power_int_def)
    show "q < 2 powi (- 1 + 1)"
      using assms(2) by simp
  qed
  let ?m = "roundHalfEven (q / 2 powi (- 53))"
  have "(6305039478318694 :: rat) \<le> q * 2 ^ 53"
    using assms(1) by simp
  then have "(6305039478318694 :: int) \<le> \<lfloor>q * 2 ^ 53\<rfloor>"
    by (simp add: le_floor_iff)
  also have "\<dots> \<le> roundHalfEven (q * 2 ^ 53)"
    by (rule roundHalfEven_ge_floor)
  finally have m: "(6305039478318694 :: int) \<le> ?m"
    by (simp add: powi_neg53)
  then have "(of_int 6305039478318694 :: rat) \<le> of_int ?m"
    by (simp only: of_int_le_iff)
  then have ge: "of_int ?m * (2::rat) powi (- 53) \<ge> 3152519739159347 / 4503599627370496"
    by (simp add: powi_neg53 field_simps)
  have "roundToDouble q = Finite (of_int ?m * 2 powi (- 53))"
    using q0 e by (simp add: roundToDouble_def Let_def)
  with ge show ?thesis by blast
qed

lemma ratio_ge_literal:
  assumes "0 < k" and "k \<le> n" and "7 * n \<le> 10 * k"
  shows "ratio k n \<ge> literal (7 / 10)"
proof -
  have n0: "0 < n" using assms by simp
  let ?q = "(of_nat k / of_nat n) :: rat"
  have lo: "7 / 10 \<le> ?q"
  proof -
    have "(of_nat (7 * n) :: rat) \<le> of_nat (10 * k)"
      using assms(3) by (simp only: of_nat_le_iff)
    then have "(7::rat) * of_nat n \<le> 10 * of_nat k"
      by simp
    then show ?thesis
      using n0 by (simp add: field_simps)
  qed
  show ?thesis
  proof (cases "k = n")
    case True
    with n0 have "?q = 1" by simp
    then show ?thesis
      by (simp add: ratio_def roundToDouble_one finiteValue_def literal_07)
  next
    case False
    with assms(2) have "k < n" by simp
    then have "?q < 1"
      using n0 by simp
    from roundToDouble_upper_half[OF lo this] show ?thesis
      by (auto simp: ratio_def finiteValue_def literal_07)
  qed
qed

lemma ratio_same: "0 < n \<Longrightarrow> ratio n n = 1"
  by (simp add: ratio_def roundToDouble_one finiteValue_def)

lemma literal_09: "literal (9 / 10) < 1"
  by code_simp

lemma count_le: "count P xs \<le> length xs"
  by (simp add: count_def)


lemma count_eq_length: "count P xs = length xs \<longleftrightarrow> list_all P xs"
proof (induction xs)
  case Nil
  show ?case by (simp add: count_def)
next
  case (Cons x xs)
  show ?case
  proof (cases "P x")
    case True
    with Cons show ?thesis
      by (simp add: count_def)
  next
    case False
    then have "count P (x # xs) = count P xs"
      by (simp add: count_def)
    moreover have "count P xs \<le> length xs"
      by (rule count_le)
    ultimately have "count P (x # xs) \<noteq> length (x # xs)"
      by simp
    with False show ?thesis by simp
  qed
qed

lemma count_none: "list_all (\<lambda>x. \<not> P x) xs \<Longrightarrow> count P xs = 0"
  by (induction xs) (simp_all add: count_def)

lemma is_digit_not_space: "is_digit c \<Longrightarrow> \<not> is_space c"
  by (auto simp: is_digit_def is_space_def Let_def)

lemma trim_id:
  assumes "s \<noteq> []" and "\<not> is_space (hd s)" and "\<not> is_space (last s)"
  shows "trim s = s"
proof -
  have "dropWhile is_space s = s"
    using assms(1,2) by (cases s) simp_all
  moreover have "dropWhile is_space (rev s) = rev s"
    using assms(1,3) by (cases "rev s") (simp_all add: last_rev [symmetric] hd_rev)
  ultimately show ?thesis
    by (simp add: trim_def trimStart_def trimEnd_def)
qed

lemma sublist_single: "sublist [c] s \<longleftrightarrow> c \<in> set s"
  by (induction s) (auto simp: sublist_Cons_right)

text \<open>The shape of a string that matches the simple decimal expression.\<close>

lemma matchesSimpleDecimal_shape:
  assumes "matchesSimpleDecimal s"
  obtains ip fr where "dropMinus s = ip @ fr" and "ip \<noteq> []" and "list_all is_digit ip"
    and "takeWhile is_digit (dropMinus s) = ip" and "dropWhile is_digit (dropMinus s) = fr"
    and "fr = [] \<or> (\<exists>fp. fr = CHR ''.'' # fp \<and> fp \<noteq> [] \<and> list_all is_digit fp)"
    and "s = dropMinus s \<or> s = CHR ''-'' # dropMinus s"
proof -
  let ?u = "dropMinus s"
  let ?ip = "takeWhile is_digit ?u" and ?fr = "dropWhile is_digit ?u"
  have 1: "?u = ?ip @ ?fr" by simp
  have 2: "?ip \<noteq> []"
    using assms by (simp add: matchesSimpleDecimal_def Let_def)
  have 3: "list_all is_digit ?ip"
    by (simp add: list_all_iff) (meson set_takeWhileD)
  have "fractionToEnd ?fr"
    using assms by (simp add: matchesSimpleDecimal_def Let_def)
  then have 4: "?fr = [] \<or> (\<exists>fp. ?fr = CHR ''.'' # fp \<and> fp \<noteq> [] \<and> list_all is_digit fp)"
    by (cases ?fr) (auto simp: fractionToEnd_def)
  have 5: "s = ?u \<or> s = CHR ''-'' # ?u"
    using 2 by (cases s) (auto simp: dropMinus_def)
  from that[OF 1 2 3 refl refl 4 5] show thesis .
qed

lemma digit_or_dot_not_radix:
  "is_digit x \<or> x = CHR ''.'' \<Longrightarrow>
     x \<noteq> CHR ''x'' \<and> x \<noteq> CHR ''X'' \<and> x \<noteq> CHR ''o'' \<and> x \<noteq> CHR ''O'' \<and> x \<noteq> CHR ''b'' \<and> x \<noteq> CHR ''B''"
  by (auto simp: is_digit_def)

lemma digit_not_sign: "is_digit x \<Longrightarrow> x \<noteq> CHR ''+'' \<and> x \<noteq> CHR ''-'' \<and> x \<noteq> CHR ''I''"
  by (auto simp: is_digit_def)

lemma roundToDouble_not_NaN: "roundToDouble q \<noteq> NaN"
  by (simp add: roundToDouble_def Let_def)

lemma takeWhile_all: "list_all P xs \<Longrightarrow> takeWhile P xs = xs \<and> dropWhile P xs = []"
  by (induction xs) simp_all

lemma takeWhile_digits_dot:
  "list_all is_digit ip \<Longrightarrow> takeWhile is_digit (ip @ CHR ''.'' # fp) = ip
     \<and> dropWhile is_digit (ip @ CHR ''.'' # fp) = CHR ''.'' # fp"
  by (induction ip) (simp_all add: is_digit_def)

text \<open>What \<open>Number\<close> does with a simple decimal.\<close>

lemma stringToNumber_simple_decimal:
  assumes "matchesSimpleDecimal s"
  shows "\<exists>v. parseUnsignedDecimal (dropMinus s) = Some v
           \<and> stringToNumber s = roundToDouble (if hd s = CHR ''-'' then - v else v)"
proof -
  from assms obtain ip fr where sh: "dropMinus s = ip @ fr" "ip \<noteq> []" "list_all is_digit ip"
    "takeWhile is_digit (dropMinus s) = ip" "dropWhile is_digit (dropMinus s) = fr"
    "fr = [] \<or> (\<exists>fp. fr = CHR ''.'' # fp \<and> fp \<noteq> [] \<and> list_all is_digit fp)"
    "s = dropMinus s \<or> s = CHR ''-'' # dropMinus s"
    by (rule matchesSimpleDecimal_shape)
  let ?u = "dropMinus s"
  have hd_ip: "is_digit (hd ip)"
    using sh(2,3) by (cases ip) simp_all
  have u_ne: "?u \<noteq> []" and hd_u: "is_digit (hd ?u)"
    using sh(1,2) hd_ip by (cases ip; simp)+
  have last_u: "is_digit (last ?u)"
  proof -
    from sh(6) show ?thesis
    proof
      assume "fr = []"
      with sh(1,2,3) show ?thesis
        by (simp add: list_all_iff)
    next
      assume "\<exists>fp. fr = CHR ''.'' # fp \<and> fp \<noteq> [] \<and> list_all is_digit fp"
      then obtain fp where "fr = CHR ''.'' # fp" "fp \<noteq> []" "list_all is_digit fp"
        by blast
      with sh(1) show ?thesis
        by (simp add: list_all_iff)
    qed
  qed
  have s_ne: "s \<noteq> []"
    using u_ne by (auto simp: dropMinus_def)
  have hd_s: "hd s = CHR ''-'' \<or> is_digit (hd s)"
    using hd_u s_ne by (cases s) (auto simp: dropMinus_def split: if_splits)
  have last_s: "last s = last ?u"
    using u_ne s_ne by (cases s) (auto simp: dropMinus_def split: if_splits)
  have "\<not> is_space (hd s)"
    using hd_s is_digit_not_space by (auto simp: is_space_def)
  moreover have "\<not> is_space (last s)"
    using last_s last_u is_digit_not_space by simp
  ultimately have t: "trim s = s"
    using s_ne by (intro trim_id)
  have second: "\<And>z x ds. s = z # x # ds \<Longrightarrow> z = CHR ''0''
      \<Longrightarrow> x \<noteq> CHR ''x'' \<and> x \<noteq> CHR ''X'' \<and> x \<noteq> CHR ''o'' \<and> x \<noteq> CHR ''O'' \<and> x \<noteq> CHR ''b'' \<and> x \<noteq> CHR ''B''"
  proof -
    fix z x ds
    assume s: "s = z # x # ds" and z: "z = CHR ''0''"
    then have u: "?u = s"
      by (simp add: dropMinus_def)
    have "is_digit x \<or> x = CHR ''.''"
    proof (cases "is_digit x")
      case True
      then show ?thesis by simp
    next
      case False
      with s z u sh(5) have "fr = x # ds"
        by (simp add: is_digit_def)
      with sh(6) show ?thesis by auto
    qed
    then show "x \<noteq> CHR ''x'' \<and> x \<noteq> CHR ''X'' \<and> x \<noteq> CHR ''o'' \<and> x \<noteq> CHR ''O'' \<and> x \<noteq> CHR ''b'' \<and> x \<noteq> CHR ''B''"
      by (rule digit_or_dot_not_radix)
  qed
  have radix: "parseRadix s = None"
  proof (cases s)
    case Nil
    then show ?thesis by (simp add: parseRadix_def)
  next
    case (Cons z r)
    show ?thesis
    proof (cases r)
      case Nil
      with Cons show ?thesis by (simp add: parseRadix_def)
    next
      case (Cons x ds)
      with \<open>s = z # r\<close> second[of z x ds] show ?thesis
        by (auto simp: parseRadix_def)
    qed
  qed
  have plus: "hd s \<noteq> CHR ''+''"
    using hd_s digit_not_sign[of "hd s"] by auto
  have u: "(if hd s = CHR ''-'' \<or> hd s = CHR ''+'' then tl s else s) = ?u"
    using s_ne plus by (cases s) (auto simp: dropMinus_def)
  have inf: "?u \<noteq> ''Infinity''"
    using hd_u digit_not_sign[of "hd ?u"] by (cases ?u) auto
  have pe: "parseExponent [] = Some 0"
    by (simp add: parseExponent_def)
  have "\<exists>v. parseUnsignedDecimal ?u = Some v"
  proof -
    from sh(6) show ?thesis
    proof
      assume "fr = []"
      with sh(5) have dw: "dropWhile is_digit ?u = []"
        by simp
      show ?thesis
        unfolding parseUnsignedDecimal_def Let_def sh(4) dw
        using sh(2) pe by simp
    next
      assume "\<exists>fp. fr = CHR ''.'' # fp \<and> fp \<noteq> [] \<and> list_all is_digit fp"
      then obtain fp where fp: "fr = CHR ''.'' # fp" "fp \<noteq> []" "list_all is_digit fp"
        by blast
      with sh(5) have dw: "dropWhile is_digit ?u = CHR ''.'' # fp"
        by simp
      from takeWhile_all[OF fp(3)] have tw: "takeWhile is_digit fp = fp" "dropWhile is_digit fp = []"
        by simp_all
      show ?thesis
        unfolding parseUnsignedDecimal_def Let_def sh(4) dw list.sel list.case if_True simp_thms tw
        using sh(2) fp(2) pe by simp
    qed
  qed
  then obtain v where v: "parseUnsignedDecimal ?u = Some v"
    by blast
  have "stringToNumber s = roundToDouble (if hd s = CHR ''-'' then - v else v)"
    using t s_ne radix u inf v by (simp add: stringToNumber_def Let_def)
  with v show ?thesis by blast
qed

lemma simple_decimal_not_NaN:
  assumes "matchesSimpleDecimal s"
  shows "\<not> isNaN (Number (JStr s))"
proof -
  from stringToNumber_simple_decimal[OF assms] obtain v
    where "stringToNumber s = roundToDouble (if hd s = CHR ''-'' then - v else v)"
    by blast
  then have "stringToNumber s \<noteq> NaN"
    by (simp only: roundToDouble_not_NaN not_False_eq_True)
  then show ?thesis
    by (simp add: isNaN_def)
qed

lemma digits_no_slash: "list_all is_digit xs \<Longrightarrow> CHR ''/'' \<notin> set xs"
  by (induction xs) (auto simp: is_digit_def)

lemma simple_decimal_no_slash:
  assumes "matchesSimpleDecimal s"
  shows "\<not> includesStr s ''/''"
proof -
  from assms obtain ip fr where sh: "dropMinus s = ip @ fr" "ip \<noteq> []" "list_all is_digit ip"
    "takeWhile is_digit (dropMinus s) = ip" "dropWhile is_digit (dropMinus s) = fr"
    "fr = [] \<or> (\<exists>fp. fr = CHR ''.'' # fp \<and> fp \<noteq> [] \<and> list_all is_digit fp)"
    "s = dropMinus s \<or> s = CHR ''-'' # dropMinus s"
    by (rule matchesSimpleDecimal_shape)
  have "CHR ''/'' \<notin> set ip"
    using sh(3) by (rule digits_no_slash)
  moreover have "CHR ''/'' \<notin> set fr"
    using sh(6) digits_no_slash by auto
  ultimately have "CHR ''/'' \<notin> set (dropMinus s)"
    using sh(1) by simp
  then have "CHR ''/'' \<notin> set s"
    by (cases s) (auto simp: dropMinus_def split: if_splits)
  then show ?thesis
    by (simp add: includesStr_def sublist_single)
qed

lemma simple_decimal_not_date:
  "matchesSimpleDecimal s \<Longrightarrow> \<not> isValidDate dateParses toStr (JStr s)"
  using simple_decimal_no_slash[of s] by (simp add: isValidDate_def)

lemma isInteger_of_int: "isInteger (Finite (of_int k))"
  by (simp add: isInteger_def)

lemma big_bound_1: "(10::int) ^ 308 < 2 ^ 1024"
  by simp

lemma big_bound_2: "2 * (10::int) ^ 308 + 2 ^ 971 < 2 ^ 1025"
  by simp

lemma powi_nonneg_of_int: "0 \<le> j \<Longrightarrow> (2::rat) powi j = of_int (2 ^ nat j)"
  by (simp add: power_int_def)

lemma powi_neg_inverse: "j < 0 \<Longrightarrow> (2::rat) powi j = 1 / of_int (2 ^ nat (- j))"
  by (simp add: power_int_def field_simps)

lemma roundToDouble_normal:
  assumes "q \<noteq> 0" and "a = \<bar>q\<bar>" and "e = max (floorLog2 a) (- 1022)"
    and "ulp = 2 powi (e - 52)" and "m = roundHalfEven (a / ulp)"
    and "\<not> (e > 1023 \<or> (e = 1023 \<and> m \<ge> 2 ^ 53))"
  shows "roundToDouble q = Finite (if q > 0 then of_int m * ulp else - (of_int m * ulp))"
proof -
  have "roundToDouble q =
      (if e > 1023 \<or> (e = 1023 \<and> m \<ge> 2 ^ 53)
       then (if q > 0 then PosInfinity else NegInfinity)
       else Finite (if q > 0 then of_int m * ulp else - (of_int m * ulp)))"
    unfolding assms(5) assms(4) assms(3) assms(2)
    using assms(1) by (simp only: roundToDouble_def Let_def if_False)
  with assms(6) show ?thesis
    by (simp only: if_False)
qed

lemma roundToDouble_int_isInteger:
  assumes "\<bar>n\<bar> < 10 ^ 308"
  shows "isInteger (roundToDouble (of_int n))"
proof (cases "n = 0")
  case True
  then show ?thesis
    by (simp add: roundToDouble_def isInteger_def)
next
  case False
  let ?a = "of_int \<bar>n\<bar> :: rat"
  let ?e = "floorLog2 ?a"
  have abs: "\<bar>of_int n :: rat\<bar> = ?a"
    by simp
  have a1: "1 \<le> ?a"
  proof -
    have "1 \<le> \<bar>n\<bar>"
      using False by simp
    then have "(of_int 1 :: rat) \<le> of_int \<bar>n\<bar>"
      by (simp only: of_int_le_iff)
    then show ?thesis by simp
  qed
  then have a0: "0 < ?a"
    by linarith
  from floorLog2_bounds[OF a0] have lo: "2 powi ?e \<le> ?a" and hi: "?a < 2 powi (?e + 1)"
    by simp_all
  have e0: "0 \<le> ?e"
  proof (rule ccontr)
    assume "\<not> 0 \<le> ?e"
    then have "?e + 1 \<le> 0" by simp
    then have "(2::rat) powi (?e + 1) \<le> 2 powi 0"
      by (rule powi_two_mono)
    with hi a1 show False by simp
  qed
  have ehi: "?e \<le> 1023"
  proof (rule ccontr)
    assume "\<not> ?e \<le> 1023"
    then have "1024 \<le> ?e" by simp
    then have "(2::rat) powi 1024 \<le> 2 powi ?e"
      by (rule powi_two_mono)
    with lo have "(2::rat) powi 1024 \<le> ?a"
      by linarith
    then have "(of_int (2 ^ 1024) :: rat) \<le> of_int \<bar>n\<bar>"
      by (simp add: power_int_def)
    then have "(2::int) ^ 1024 \<le> \<bar>n\<bar>"
      by (simp only: of_int_le_iff)
    with assms big_bound_1 show False
      by linarith
  qed
  let ?ulp = "(2::rat) powi (?e - 52)"
  let ?m = "roundHalfEven (?a / ?ulp)"
  have no_overflow: "\<not> (?e > 1023 \<or> (?e = 1023 \<and> ?m \<ge> 2 ^ 53))"
  proof -
    have "?e = 1023 \<Longrightarrow> ?m < 2 ^ 53"
    proof -
      assume e: "?e = 1023"
      have u: "(2::rat) powi (1023 - 52) = of_int (2 ^ 971)"
        by (simp add: power_int_def)
      have "of_int ?m \<le> ?a / ?ulp + 1 / 2"
        by (rule roundHalfEven_le)
      then have "of_int ?m * (2 * of_int (2 ^ 971)) \<le> 2 * ?a + (of_int (2 ^ 971) :: rat)"
        using e u by (simp add: field_simps)
      then have "(of_int (?m * (2 * 2 ^ 971)) :: rat) \<le> of_int (2 * \<bar>n\<bar> + 2 ^ 971)"
        by simp
      then have "?m * (2 * 2 ^ 971) \<le> 2 * \<bar>n\<bar> + 2 ^ 971"
        by (simp only: of_int_le_iff)
      also have "\<dots> < 2 * 10 ^ 308 + 2 ^ 971"
        by (rule add_strict_right_mono[OF mult_strict_left_mono[OF assms]]) simp
      also have "\<dots> < 2 ^ 1025"
        by (rule big_bound_2)
      also have "\<dots> = (2 ^ 53 :: int) * (2 * 2 ^ 971)"
        by simp
      finally show "?m < 2 ^ 53"
        by simp
    qed
    with ehi show ?thesis by auto
  qed
  have integral: "\<exists>k. of_int ?m * ?ulp = of_int k"
  proof (cases "52 \<le> ?e")
    case True
    then have "?ulp = of_int (2 ^ nat (?e - 52))"
      by (intro powi_nonneg_of_int) simp
    then have "of_int ?m * ?ulp = of_int (?m * 2 ^ nat (?e - 52))"
      by simp
    then show ?thesis by blast
  next
    case False
    then have u: "?ulp = 1 / of_int (2 ^ nat (- (?e - 52)))"
      by (intro powi_neg_inverse) simp
    have "?a / ?ulp = of_int (\<bar>n\<bar> * 2 ^ nat (- (?e - 52)))"
      unfolding u by simp
    then have "?m = \<bar>n\<bar> * 2 ^ nat (- (?e - 52))"
      by (simp only: roundHalfEven_of_int)
    then have "of_int ?m * ?ulp = of_int \<bar>n\<bar>"
      unfolding u by simp
    then show ?thesis by blast
  qed
  then obtain k where k: "of_int ?m * ?ulp = of_int k"
    by blast
  have emax: "max ?e (- 1022) = ?e"
    using e0 by simp
  have nz: "(of_int n :: rat) \<noteq> 0"
    using False by simp
  have R: "roundToDouble (of_int n) =
          Finite (if (of_int n :: rat) > 0 then of_int ?m * ?ulp else - (of_int ?m * ?ulp))"
    by (rule roundToDouble_normal[OF nz abs[symmetric] emax[symmetric] refl refl no_overflow])
  show ?thesis
  proof (cases "(of_int n :: rat) > 0")
    case True
    with R have "roundToDouble (of_int n) = Finite (of_int k)"
      by (simp only: if_True k)
    then show ?thesis
      by (simp only: isInteger_of_int)
  next
    case False
    with R have "roundToDouble (of_int n) = Finite (- of_int k)"
      by (simp only: if_False k)
    then have "roundToDouble (of_int n) = Finite (of_int (- k))"
      by (simp only: of_int_minus)
    then show ?thesis
      by (simp only: isInteger_of_int)
  qed
qed

lemma roundToDouble_int_exact:
  assumes "\<bar>n\<bar> < 2 ^ 53"
  shows "roundToDouble (of_int n) = Finite (of_int n)"
proof (cases "n = 0")
  case True
  then show ?thesis
    by (simp add: roundToDouble_def)
next
  case False
  let ?a = "of_int \<bar>n\<bar> :: rat"
  let ?e = "floorLog2 ?a"
  have abs: "\<bar>of_int n :: rat\<bar> = ?a"
    by simp
  have a1: "1 \<le> ?a"
  proof -
    have "1 \<le> \<bar>n\<bar>"
      using False by simp
    then have "(of_int 1 :: rat) \<le> of_int \<bar>n\<bar>"
      by (simp only: of_int_le_iff)
    then show ?thesis by simp
  qed
  then have a0: "0 < ?a"
    by linarith
  from floorLog2_bounds[OF a0] have lo: "2 powi ?e \<le> ?a" and hi: "?a < 2 powi (?e + 1)"
    by simp_all
  have e0: "0 \<le> ?e"
  proof (rule ccontr)
    assume "\<not> 0 \<le> ?e"
    then have "?e + 1 \<le> 0" by simp
    then have "(2::rat) powi (?e + 1) \<le> 2 powi 0"
      by (rule powi_two_mono)
    with hi a1 show False by simp
  qed
  have ehi: "?e \<le> 52"
  proof (rule ccontr)
    assume "\<not> ?e \<le> 52"
    then have "53 \<le> ?e" by simp
    then have "(2::rat) powi 53 \<le> 2 powi ?e"
      by (rule powi_two_mono)
    with lo have "(2::rat) powi 53 \<le> ?a"
      by linarith
    then have "(of_int (2 ^ 53) :: rat) \<le> of_int \<bar>n\<bar>"
      by (simp add: power_int_def)
    then have "(2::int) ^ 53 \<le> \<bar>n\<bar>"
      by (simp only: of_int_le_iff)
    with assms show False
      by linarith
  qed
  let ?ulp = "(2::rat) powi (?e - 52)"
  let ?m = "roundHalfEven (?a / ?ulp)"
  have u: "?ulp = 1 / of_int (2 ^ nat (52 - ?e))"
  proof (cases "?e = 52")
    case True
    then show ?thesis by simp
  next
    case False
    with ehi have "?e - 52 < 0" by simp
    then have "?ulp = 1 / of_int (2 ^ nat (- (?e - 52)))"
      by (rule powi_neg_inverse)
    then show ?thesis by simp
  qed
  have "?a / ?ulp = of_int (\<bar>n\<bar> * 2 ^ nat (52 - ?e))"
    unfolding u by simp
  then have "?m = \<bar>n\<bar> * 2 ^ nat (52 - ?e)"
    by (simp only: roundHalfEven_of_int)
  then have k: "of_int ?m * ?ulp = ?a"
    unfolding u by simp
  have emax: "max ?e (- 1022) = ?e"
    using e0 by simp
  have nz: "(of_int n :: rat) \<noteq> 0"
    using False by simp
  have no_overflow: "\<not> (?e > 1023 \<or> (?e = 1023 \<and> ?m \<ge> 2 ^ 53))"
    using ehi by simp
  have R: "roundToDouble (of_int n) =
          Finite (if (of_int n :: rat) > 0 then of_int ?m * ?ulp else - (of_int ?m * ?ulp))"
    by (rule roundToDouble_normal[OF nz abs[symmetric] emax[symmetric] refl refl no_overflow])
  show ?thesis
  proof (cases "(of_int n :: rat) > 0")
    case True
    then have "\<bar>n\<bar> = n"
      by simp
    with True R k show ?thesis
      by (simp only: if_True)
  next
    case False
    then have "\<bar>n\<bar> = - n"
      by simp
    with False R k have "roundToDouble (of_int n) = Finite (- of_int (- n))"
      by (simp only: if_False)
    then show ?thesis
      by simp
  qed
qed

lemma digitValue_le9: "is_digit c \<Longrightarrow> digitValue c \<le> 9"
  by (auto simp: is_digit_def digitValue_def Let_def)

lemma digits_fold_bounds:
  assumes "list_all is_digit ds" and "0 \<le> acc"
  shows "0 \<le> foldl (\<lambda>acc c. 10 * acc + int (digitValue c)) acc ds
       \<and> foldl (\<lambda>acc c. 10 * acc + int (digitValue c)) acc ds < (acc + 1) * 10 ^ length ds"
  using assms
proof (induction ds arbitrary: acc)
  case Nil
  then show ?case by simp
next
  case (Cons c ds)
  let ?acc' = "10 * acc + int (digitValue c)"
  have d: "int (digitValue c) \<le> 9"
    using Cons.prems(1) digitValue_le9[of c] by simp
  have acc': "0 \<le> ?acc'"
    using Cons.prems(2) by simp
  have ds: "list_all is_digit ds"
    using Cons.prems(1) by simp
  from Cons.IH[OF ds acc'] have ih: "0 \<le> foldl (\<lambda>acc c. 10 * acc + int (digitValue c)) ?acc' ds"
    "foldl (\<lambda>acc c. 10 * acc + int (digitValue c)) ?acc' ds < (?acc' + 1) * 10 ^ length ds"
    by simp_all
  have "(?acc' + 1) * 10 ^ length ds \<le> (10 * acc + 10) * 10 ^ length ds"
    using d by (intro mult_right_mono) simp_all
  also have "\<dots> = (acc + 1) * 10 ^ length (c # ds)"
    by (simp add: algebra_simps)
  finally have le: "(?acc' + 1) * 10 ^ length ds \<le> (acc + 1) * 10 ^ length (c # ds)" .
  from ih(2) le have "foldl (\<lambda>acc c. 10 * acc + int (digitValue c)) ?acc' ds < (acc + 1) * 10 ^ length (c # ds)"
    by (rule less_le_trans)
  with ih(1) show ?case by simp
qed

lemma digitsValue_bounds:
  "list_all is_digit ds \<Longrightarrow> 0 \<le> digitsValue 10 ds \<and> digitsValue 10 ds < 10 ^ length ds"
  using digits_fold_bounds[of ds 0] by (simp add: digitsValue_def)

lemma integerString_simple:
  assumes "integerString s"
  shows "matchesSimpleDecimal s"
proof -
  from assms have u: "dropMinus s \<noteq> []" "list_all is_digit (dropMinus s)"
    by (simp_all add: integerString_def)
  from takeWhile_all[OF u(2)] have tw: "takeWhile is_digit (dropMinus s) = dropMinus s"
    and dw: "dropWhile is_digit (dropMinus s) = []"
    by simp_all
  show ?thesis
    unfolding matchesSimpleDecimal_def Let_def tw dw
    using u(1) by (simp add: fractionToEnd_def)
qed

lemma integerString_parse:
  assumes "integerString s"
  shows "parseUnsignedDecimal (dropMinus s) = Some (of_int (digitsValue 10 (dropMinus s)))"
proof -
  let ?u = "dropMinus s"
  from assms have u: "?u \<noteq> []" "list_all is_digit ?u"
    by (simp_all add: integerString_def)
  from takeWhile_all[OF u(2)] have tw: "takeWhile is_digit ?u = ?u" and dw: "dropWhile is_digit ?u = []"
    by simp_all
  have pe: "parseExponent [] = Some 0"
    by (simp add: parseExponent_def)
  show ?thesis
    unfolding parseUnsignedDecimal_def Let_def tw dw
    using u(1) pe by (simp add: digitsValue_def)
qed

lemma integerString_isInteger:
  assumes "integerString s" and "length s \<le> 308"
  shows "isInteger (Number (JStr s))"
proof -
  let ?u = "dropMinus s"
  let ?dv = "digitsValue 10 ?u"
  from assms(1) have u: "list_all is_digit ?u"
    by (simp add: integerString_def)
  from stringToNumber_simple_decimal[OF integerString_simple[OF assms(1)]] integerString_parse[OF assms(1)]
  have sn: "stringToNumber s = roundToDouble (if hd s = CHR ''-'' then - of_int ?dv else of_int ?dv)"
    by auto
  have "length ?u \<le> length s"
    by (cases s) (simp_all add: dropMinus_def)
  with assms(2) have len: "length ?u \<le> 308"
    by simp
  from digitsValue_bounds[OF u] have b: "0 \<le> ?dv" "?dv < 10 ^ length ?u"
    by simp_all
  have "(10::int) ^ length ?u \<le> 10 ^ 308"
    using len by (intro power_increasing) simp_all
  with b(2) have "?dv < 10 ^ 308"
    by (rule less_le_trans)
  with b have small: "\<bar>?dv\<bar> < 10 ^ 308" "\<bar>- ?dv\<bar> < 10 ^ 308"
    by (simp_all only: abs_minus_cancel abs_of_nonneg)
  show ?thesis
  proof (cases "hd s = CHR ''-''")
    case True
    with sn have "stringToNumber s = roundToDouble (of_int (- ?dv))"
      by simp
    with roundToDouble_int_isInteger[OF small(2)] show ?thesis
      by simp
  next
    case False
    with sn have "stringToNumber s = roundToDouble (of_int ?dv)"
      by simp
    with roundToDouble_int_isInteger[OF small(1)] show ?thesis
      by simp
  qed
qed

lemma literal_07_le_1: "literal (7 / 10) \<le> 1"
  by (simp add: literal_07)

lemma list_all_mono: "list_all P xs \<Longrightarrow> (\<And>x. P x \<Longrightarrow> Q x) \<Longrightarrow> list_all Q xs"
  by (simp add: list_all_iff)


lemma numeric_values_infer:
  assumes vv: "validValues = filter (\<lambda>v. \<not> isBlank v) values"
    and ne: "validValues \<noteq> []"
    and num: "list_all (\<lambda>v. \<not> isNaN (Number v)) validValues"
  shows "likelyNumericColumn (toLowerCase columnName) \<Longrightarrow>
            inferDataType dateParses toStr values columnName = ''NUMERIC''"
    and "\<not> likelyNumericColumn (toLowerCase columnName) \<Longrightarrow>
         \<not> list_all (isValidDate dateParses toStr) validValues \<Longrightarrow>
            inferDataType dateParses toStr values columnName =
              (if list_all (\<lambda>v. isInteger (Number v)) validValues then ''INTEGER'' else ''NUMERIC'')"
proof -
  let ?n = "length validValues"
  have n: "0 < ?n"
    using ne by simp
  have nz: "?n \<noteq> 0"
    using n by simp
  have c1: "count (\<lambda>v. isCurrency v \<or> \<not> isNaN (Number v)) validValues = ?n"
    unfolding count_eq_length using num by (rule list_all_mono) simp
  have c3: "count (\<lambda>v. \<not> isNaN (Number v)) validValues = ?n"
    unfolding count_eq_length by (rule num)
  have c4: "count (\<lambda>v. isInteger (Number v)) validValues = ?n
              \<longleftrightarrow> list_all (\<lambda>v. isInteger (Number v)) validValues"
    by (rule count_eq_length)
  have r: "ratio ?n ?n \<ge> literal (7 / 10)"
    using n by (simp add: ratio_same literal_07_le_1)
  show "likelyNumericColumn (toLowerCase columnName) \<Longrightarrow>
            inferDataType dateParses toStr values columnName = ''NUMERIC''"
    unfolding inferDataType_def Let_def vv[symmetric] c1 using n r nz by simp
  show "\<not> likelyNumericColumn (toLowerCase columnName) \<Longrightarrow>
         \<not> list_all (isValidDate dateParses toStr) validValues \<Longrightarrow>
            inferDataType dateParses toStr values columnName =
              (if list_all (\<lambda>v. isInteger (Number v)) validValues then ''INTEGER'' else ''NUMERIC'')"
  proof -
    assume h: "\<not> likelyNumericColumn (toLowerCase columnName)"
      and d: "\<not> list_all (isValidDate dateParses toStr) validValues"
    from d have c2: "count (isValidDate dateParses toStr) validValues \<noteq> ?n"
      by (simp only: count_eq_length not_False_eq_True)
    show ?thesis
      unfolding inferDataType_def Let_def vv[symmetric] c3 c4 using h c2 nz by simp
  qed
qed

lemma simple_decimals_numeric:
  assumes "list_all simpleDecimalValue validValues"
  shows "list_all (\<lambda>v. \<not> isNaN (Number v)) validValues"
  using assms
proof (rule list_all_mono)
  fix v
  assume "simpleDecimalValue v"
  then show "\<not> isNaN (Number v)"
    using simple_decimal_not_NaN by (cases v) (simp_all add: simpleDecimalValue_def)
qed

lemma simple_decimals_not_dates:
  assumes "list_all simpleDecimalValue validValues" and "validValues \<noteq> []"
  shows "\<not> list_all (isValidDate dateParses toStr) validValues"
proof -
  from assms(2) obtain v where v: "v \<in> set validValues"
    by (cases validValues) auto
  with assms(1) have "simpleDecimalValue v"
    by (simp add: list_all_iff)
  then have "\<not> isValidDate dateParses toStr v"
    using simple_decimal_not_date by (cases v) (simp_all add: simpleDecimalValue_def)
  with v show ?thesis
    by (auto simp: list_all_iff)
qed

lemma integerValue_simple: "integerValue v \<Longrightarrow> simpleDecimalValue v"
  using integerString_simple by (cases v) (simp_all add: integerValue_def simpleDecimalValue_def)

lemma integer_values_integral:
  assumes "list_all integerValue validValues"
  shows "list_all (\<lambda>v. isInteger (Number v)) validValues"
  using assms
proof (rule list_all_mono)
  fix v
  assume "integerValue v"
  then show "isInteger (Number v)"
    using integerString_isInteger by (cases v) (simp_all add: integerValue_def)
qed

text \<open>
  Claim C4, as the code has it. Let the non-blank values be non-empty. If they are all
  integer strings (an optional minus sign and digits, at most 308 characters) and the
  column name has no money or quantity hint, the type is \<open>INTEGER\<close>. If they all
  convert to numbers and the name has such a hint, the type is \<open>NUMERIC\<close>. If they
  all convert to numbers, do not all pass the date test, and the name has no such hint,
  the type is \<open>INTEGER\<close> when every value is integral as a number and \<open>NUMERIC\<close>
  otherwise. Simple decimal strings always convert to numbers and never pass the date
  test, whatever the date parser.
\<close>

theorem numeric_strings_infer_type:
  assumes vv: "validValues = filter (\<lambda>v. \<not> isBlank v) values"
    and ne: "validValues \<noteq> []"
  shows "(list_all integerValue validValues \<and> \<not> likelyNumericColumn (toLowerCase columnName) \<longrightarrow>
            inferDataType dateParses toStr values columnName = ''INTEGER'')
       \<and> (list_all (\<lambda>v. \<not> isNaN (Number v)) validValues \<and> likelyNumericColumn (toLowerCase columnName) \<longrightarrow>
            inferDataType dateParses toStr values columnName = ''NUMERIC'')
       \<and> (list_all (\<lambda>v. \<not> isNaN (Number v)) validValues
            \<and> \<not> list_all (isValidDate dateParses toStr) validValues
            \<and> \<not> likelyNumericColumn (toLowerCase columnName) \<longrightarrow>
            inferDataType dateParses toStr values columnName =
              (if list_all (\<lambda>v. isInteger (Number v)) validValues then ''INTEGER'' else ''NUMERIC''))
       \<and> (list_all simpleDecimalValue validValues \<longrightarrow>
            list_all (\<lambda>v. \<not> isNaN (Number v)) validValues
            \<and> \<not> list_all (isValidDate dateParses toStr) validValues)"
proof -
  have a: "list_all integerValue validValues \<and> \<not> likelyNumericColumn (toLowerCase columnName) \<longrightarrow>
            inferDataType dateParses toStr values columnName = ''INTEGER''"
  proof (intro impI, elim conjE)
    assume i: "list_all integerValue validValues"
      and h: "\<not> likelyNumericColumn (toLowerCase columnName)"
    from i have s: "list_all simpleDecimalValue validValues"
      by (rule list_all_mono) (rule integerValue_simple)
    from numeric_values_infer(2)[OF vv ne simple_decimals_numeric[OF s] h
        simple_decimals_not_dates[OF s ne]] integer_values_integral[OF i]
    show "inferDataType dateParses toStr values columnName = ''INTEGER''"
      by simp
  qed
  have b: "list_all (\<lambda>v. \<not> isNaN (Number v)) validValues \<and> likelyNumericColumn (toLowerCase columnName) \<longrightarrow>
            inferDataType dateParses toStr values columnName = ''NUMERIC''"
    using numeric_values_infer(1)[OF vv ne] by blast
  have c: "list_all (\<lambda>v. \<not> isNaN (Number v)) validValues
            \<and> \<not> list_all (isValidDate dateParses toStr) validValues
            \<and> \<not> likelyNumericColumn (toLowerCase columnName) \<longrightarrow>
            inferDataType dateParses toStr values columnName =
              (if list_all (\<lambda>v. isInteger (Number v)) validValues then ''INTEGER'' else ''NUMERIC'')"
    using numeric_values_infer(2)[OF vv ne] by blast
  have d: "list_all simpleDecimalValue validValues \<longrightarrow>
            list_all (\<lambda>v. \<not> isNaN (Number v)) validValues
            \<and> \<not> list_all (isValidDate dateParses toStr) validValues"
    using simple_decimals_numeric simple_decimals_not_dates[OF _ ne] by blast
  from a b c d show ?thesis by blast
qed

theorem numeric_strings_infer_type_witness:
  "[JStr ''12'', JStr ''-7''] = filter (\<lambda>v. \<not> isBlank v) [JStr ''12'', JNull, JStr ''-7'', JStr []]
   \<and> list_all integerValue [JStr ''12'', JStr ''-7'']
   \<and> \<not> likelyNumericColumn (toLowerCase ''Units'')
   \<and> likelyNumericColumn (toLowerCase ''Quantity'')
   \<and> inferDataType lenientDates jsString [JStr ''12'', JNull, JStr ''-7'', JStr []] ''Units'' = ''INTEGER''
   \<and> inferDataType lenientDates jsString [JStr ''12'', JNull, JStr ''-7'', JStr []] ''Quantity'' = ''NUMERIC''"
proof -
  let ?cells = "[JStr ''12'', JNull, JStr ''-7'', JStr []]"
  let ?valid = "[JStr ''12'', JStr ''-7'']"
  have v: "?valid = filter (\<lambda>v. \<not> isBlank v) ?cells"
    by code_simp
  have ne: "?valid \<noteq> []"
    by simp
  have i: "list_all integerValue ?valid"
    by code_simp
  have h1: "\<not> likelyNumericColumn (toLowerCase ''Units'')"
    by code_simp
  have h2: "likelyNumericColumn (toLowerCase ''Quantity'')"
    by code_simp
  have n: "list_all (\<lambda>v. \<not> isNaN (Number v)) ?valid"
    using i by (rule simple_decimals_numeric[OF list_all_mono[OF _ integerValue_simple]])
  have r1: "inferDataType lenientDates jsString ?cells ''Units'' = ''INTEGER''"
    using numeric_strings_infer_type[OF v ne, of "''Units''" lenientDates jsString] i h1 by blast
  have r2: "inferDataType lenientDates jsString ?cells ''Quantity'' = ''NUMERIC''"
    using numeric_strings_infer_type[OF v ne, of "''Quantity''" lenientDates jsString] n h2 by blast
  from v i h1 h2 r1 r2 show ?thesis
    by (intro conjI)
qed

text \<open>
  Claim C4 as stated fails twice. Integer strings under a column named \<open>quantity\<close>
  give \<open>NUMERIC\<close>, because the name hint is tested first; and the values \<open>1.0\<close> and
  \<open>2.0\<close>, which have a decimal point, give \<open>INTEGER\<close>, because integrality is
  tested on the numbers.
\<close>

theorem integer_strings_counterexample:
  "list_all integerValue [JStr ''1'', JStr ''2'']
   \<and> inferDataType lenientDates jsString [JStr ''1'', JStr ''2''] ''quantity'' = ''NUMERIC''
   \<and> includesStr ''1.0'' ''.''
   \<and> list_all (\<lambda>v. \<not> isNaN (Number v)) [JStr ''1.0'', JStr ''2.0'']
   \<and> inferDataType lenientDates jsString [JStr ''1.0'', JStr ''2.0''] ''x'' = ''INTEGER''"
  by code_simp

text \<open>
  Claim C5. When the column name contains \<open>price\<close> (in any case), there is a
  non-blank value, and at least 70% of the non-blank values are currency-like or convert
  to a number, the type is \<open>NUMERIC\<close>, whatever the date test says of the values (the
  date parser is arbitrary here).
\<close>

theorem price_column_is_numeric:
  assumes "includesStr (toLowerCase columnName) ''price''"
    and "validValues = filter (\<lambda>v. \<not> isBlank v) values"
    and "validValues \<noteq> []"
    and "7 * length validValues \<le> 10 * count (\<lambda>v. isCurrency v \<or> \<not> isNaN (Number v)) validValues"
  shows "inferDataType dateParses toStr values columnName = ''NUMERIC''"
proof -
  let ?k = "count (\<lambda>v. isCurrency v \<or> \<not> isNaN (Number v)) validValues"
  have n: "0 < length validValues"
    using assms(3) by simp
  with assms(4) have k: "0 < ?k"
    by linarith
  have "ratio ?k (length validValues) \<ge> literal (7 / 10)"
    using k count_le assms(4) by (rule ratio_ge_literal)
  moreover have "likelyNumericColumn (toLowerCase columnName)"
    using assms(1) by (simp add: likelyNumericColumn_def)
  ultimately show ?thesis
    using k n assms(2) by (simp add: inferDataType_def Let_def)
qed

theorem price_column_is_numeric_witness:
  "includesStr (toLowerCase ''Unit_Price'') ''price''
   \<and> [JStr ''1,000,000'', JStr ''2,500,000''] = filter (\<lambda>v. \<not> isBlank v) [JStr ''1,000,000'', JStr ''2,500,000'']
   \<and> 7 * length [JStr ''1,000,000'', JStr ''2,500,000'']
        \<le> 10 * count (\<lambda>v. isCurrency v \<or> \<not> isNaN (Number v)) [JStr ''1,000,000'', JStr ''2,500,000'']
   \<and> list_all (isValidDate lenientDates jsString) [JStr ''1,000,000'', JStr ''2,500,000'']
   \<and> inferDataType lenientDates jsString [JStr ''1,000,000'', JStr ''2,500,000''] ''Unit_Price'' = ''NUMERIC''
   \<and> inferDataType lenientDates jsString [JStr ''1,000,000'', JStr ''2,500,000''] ''Shipped'' = ''DATE''"
proof -
  let ?cells = "[JStr ''1,000,000'', JStr ''2,500,000'']"
  have p: "includesStr (toLowerCase ''Unit_Price'') ''price''"
    by code_simp
  have v: "?cells = filter (\<lambda>v. \<not> isBlank v) ?cells"
    by code_simp
  have ne: "?cells \<noteq> []"
    by simp
  have c: "7 * length ?cells \<le> 10 * count (\<lambda>v. isCurrency v \<or> \<not> isNaN (Number v)) ?cells"
    by code_simp
  have d: "list_all (isValidDate lenientDates jsString) ?cells"
    by code_simp
  have o: "inferDataType lenientDates jsString ?cells ''Shipped'' = ''DATE''"
    by code_simp
  have r: "inferDataType lenientDates jsString ?cells ''Unit_Price'' = ''NUMERIC''"
    using p v ne c by (rule price_column_is_numeric)
  from p v c d r o show ?thesis
    by (intro conjI)
qed

section \<open>Properties of identifier repair\<close>

lemma buildColumnMap_nameless:
  "list_ex (\<lambda>col. js_or (col_name col) (col_column_name col) = None) cols \<Longrightarrow>
   buildColumnMap cols columnMap = Inl undefinedToLowerCase"
proof (induction cols arbitrary: columnMap)
  case Nil
  then show ?case by simp
next
  case (Cons col cols)
  show ?case
  proof (cases "js_or (col_name col) (col_column_name col)")
    case None
    then show ?thesis by simp
  next
    case (Some colName)
    with Cons.prems have "list_ex (\<lambda>col. js_or (col_name col) (col_column_name col) = None) cols"
      by simp
    from Cons.IH[OF this] Some show ?thesis by simp
  qed
qed

lemma fixSqlQuery_try_nameless:
  assumes "list_ex (\<lambda>col. js_or (col_name col) (col_column_name col) = None) cols"
  shows "fixSqlQuery_try engine sql (Some cols) tableName = Inl undefinedToLowerCase"
  using buildColumnMap_nameless[OF assms, of "[]"]
  by (simp add: fixSqlQuery_try_def Let_def)

lemma fixSqlQuery_try_table:
  assumes "t \<noteq> []" and "\<not> literalPattern t"
    and "\<forall>text. \<exists>e. engine (tableSource t) (''FROM '' @ quoted t) text = Inl e"
  shows "\<exists>e. fixSqlQuery_try engine sql tableSchema (Some t) = Inl e"
proof -
  have q: "\<exists>e. quoteTable engine (Some t) s = Inl e" for s
    using assms by (simp add: quoteTable_def)
  let ?cols = "case tableSchema of
      None \<Rightarrow> Inr (normalizeSpacing sql)
    | Some cols \<Rightarrow>
        (case buildColumnMap cols [] of
           Inl e \<Rightarrow> Inl e
         | Inr columnMap \<Rightarrow> quoteColumns engine (Object_entries columnMap) (normalizeSpacing sql))"
  show ?thesis
  proof (cases ?cols)
    case (Inl e)
    then show ?thesis
      by (simp add: fixSqlQuery_try_def Let_def)
  next
    case (Inr fixedSql1)
    from q[of fixedSql1] obtain e where "quoteTable engine (Some t) fixedSql1 = Inl e"
      by blast
    with Inr show ?thesis
      by (simp add: fixSqlQuery_try_def Let_def)
  qed
qed

text \<open>
  Claim C10. \<open>fixSqlQuery\<close> returns a string on every input: whatever the body of its
  \<open>try\<close> block raises is caught. When the body raises, the result is the statement that
  was passed in, not the text repaired so far; when it does not, the result is the
  repaired text. The body does raise: at a column that has neither \<open>name\<close> nor
  \<open>column_name\<close>, wherever it stands in the schema, and at a table name that the
  regular-expression engine refuses as a pattern, which is met only after the columns
  have been quoted.
\<close>

theorem fixSqlQuery_returns_input_on_failure:
  "(fixSqlQuery_try engine sql tableSchema tableName = Inl e \<longrightarrow>
      fixSqlQuery engine sql tableSchema tableName = sql)
   \<and> (fixSqlQuery_try engine sql tableSchema tableName = Inr fixedSql \<longrightarrow>
      fixSqlQuery engine sql tableSchema tableName = fixedSql)
   \<and> (tableSchema = Some cols
        \<and> list_ex (\<lambda>col. js_or (col_name col) (col_column_name col) = None) cols \<longrightarrow>
      fixSqlQuery engine sql tableSchema tableName = sql)
   \<and> (tableName = Some t \<and> t \<noteq> [] \<and> \<not> literalPattern t
        \<and> (\<forall>text. \<exists>e. engine (tableSource t) (''FROM '' @ quoted t) text = Inl e) \<longrightarrow>
      fixSqlQuery engine sql tableSchema tableName = sql)"
proof (intro conjI impI)
  assume "fixSqlQuery_try engine sql tableSchema tableName = Inl e"
  then show "fixSqlQuery engine sql tableSchema tableName = sql"
    by (simp add: fixSqlQuery_def)
next
  assume "fixSqlQuery_try engine sql tableSchema tableName = Inr fixedSql"
  then show "fixSqlQuery engine sql tableSchema tableName = fixedSql"
    by (simp add: fixSqlQuery_def)
next
  assume "tableSchema = Some cols
      \<and> list_ex (\<lambda>col. js_or (col_name col) (col_column_name col) = None) cols"
  then show "fixSqlQuery engine sql tableSchema tableName = sql"
    using fixSqlQuery_try_nameless[of cols engine sql tableName]
    by (simp add: fixSqlQuery_def)
next
  assume h: "tableName = Some t \<and> t \<noteq> [] \<and> \<not> literalPattern t
      \<and> (\<forall>text. \<exists>e. engine (tableSource t) (''FROM '' @ quoted t) text = Inl e)"
  then obtain e where "fixSqlQuery_try engine sql tableSchema (Some t) = Inl e"
    using fixSqlQuery_try_table[of t engine sql tableSchema] by blast
  with h show "fixSqlQuery engine sql tableSchema tableName = sql"
    by (simp add: fixSqlQuery_def)
qed

theorem fixSqlQuery_returns_input_on_failure_witness:
  "fixSqlQuery_try (\<lambda>source template text. Inl (SyntaxError source)) ''select  a from t''
      (Some [\<lparr>col_name = Some ''a'', col_column_name = None, col_type = None, col_data_type = None\<rparr>])
      (Some ''t'')
     = Inr (''select '' @ quoted ''a'' @ '' FROM '' @ quoted ''t'')
   \<and> fixSqlQuery (\<lambda>source template text. Inl (SyntaxError source)) ''select  a from t''
      (Some [\<lparr>col_name = Some ''a'', col_column_name = None, col_type = None, col_data_type = None\<rparr>])
      (Some ''t'')
     = ''select '' @ quoted ''a'' @ '' FROM '' @ quoted ''t''
   \<and> fixSqlQuery_try (\<lambda>source template text. Inl (SyntaxError source)) ''select  a from t''
      (Some [\<lparr>col_name = Some ''a'', col_column_name = None, col_type = None, col_data_type = None\<rparr>,
             \<lparr>col_name = None, col_column_name = None, col_type = Some ''text'', col_data_type = None\<rparr>])
      (Some ''t'')
     = Inl undefinedToLowerCase
   \<and> fixSqlQuery (\<lambda>source template text. Inl (SyntaxError source)) ''select  a from t''
      (Some [\<lparr>col_name = Some ''a'', col_column_name = None, col_type = None, col_data_type = None\<rparr>,
             \<lparr>col_name = None, col_column_name = None, col_type = Some ''text'', col_data_type = None\<rparr>])
      (Some ''t'')
     = ''select  a from t''
   \<and> \<not> literalPattern ''t(''
   \<and> fixSqlQuery (\<lambda>source template text. Inl (SyntaxError source)) ''select  a from t(''
      (Some [\<lparr>col_name = Some ''a'', col_column_name = None, col_type = None, col_data_type = None\<rparr>])
      (Some ''t('')
     = ''select  a from t(''"
proof -
  let ?engine = "\<lambda>source template text. Inl (SyntaxError source) :: js_error + string"
  let ?a = "\<lparr>col_name = Some ''a'', col_column_name = None, col_type = None, col_data_type = None\<rparr>"
  let ?n = "\<lparr>col_name = None, col_column_name = None, col_type = Some ''text'', col_data_type = None\<rparr>"
  let ?sql = "''select  a from t''"
  have r: "fixSqlQuery_try ?engine ?sql (Some [?a]) (Some ''t'')
      = Inr (''select '' @ quoted ''a'' @ '' FROM '' @ quoted ''t'')"
    by code_simp
  have f: "fixSqlQuery_try ?engine ?sql (Some [?a, ?n]) (Some ''t'') = Inl undefinedToLowerCase"
    by code_simp
  have n: "list_ex (\<lambda>col. js_or (col_name col) (col_column_name col) = None) [?a, ?n]"
    by (simp add: js_or_def)
  have l: "\<not> literalPattern ''t(''"
    by code_simp
  have e: "\<forall>text. \<exists>e. ?engine (tableSource ''t('') (''FROM '' @ quoted ''t('') text = Inl e"
    by simp
  note t1 = fixSqlQuery_returns_input_on_failure[of "?engine" "?sql" "Some [?a]" "Some ''t''"
      undefinedToLowerCase "''select '' @ quoted ''a'' @ '' FROM '' @ quoted ''t''" "[?a]" "''t''"]
  note t2 = fixSqlQuery_returns_input_on_failure[of "?engine" "?sql" "Some [?a, ?n]" "Some ''t''"
      undefinedToLowerCase "[]" "[?a, ?n]" "''t''"]
  note t3 = fixSqlQuery_returns_input_on_failure[of "?engine" "''select  a from t(''" "Some [?a]"
      "Some ''t(''" undefinedToLowerCase "[]" "[?a]" "''t(''"]
  from t1 r have r': "fixSqlQuery ?engine ?sql (Some [?a]) (Some ''t'')
      = ''select '' @ quoted ''a'' @ '' FROM '' @ quoted ''t''"
    by blast
  from t2 f n have f': "fixSqlQuery ?engine ?sql (Some [?a, ?n]) (Some ''t'') = ?sql"
    by blast
  from t3 l e have g: "fixSqlQuery ?engine ''select  a from t('' (Some [?a]) (Some ''t('')
      = ''select  a from t(''"
    by blast
  from r r' f f' l g show ?thesis
    by (intro conjI)
qed

section \<open>Repeating identifier repair\<close>




















lemma wordAt_Cons: "wordAt (c # s) = is_word c"
  by (simp add: wordAt_def)

lemma wordAt_Nil: "\<not> wordAt []"
  by (simp add: wordAt_def)





















section \<open>What reaches the query executor\<close>

lemma safeExecuteQuery_passes:
  assumes "q \<in> set (fst (safeExecuteQuery pool sqlQuery))"
  shows "q = prepareQuery sqlQuery \<and> valid (validateSqlQuery q)"
  using assms by (auto simp: safeExecuteQuery_def Let_def split: if_splits)

lemma valid_no_keyword:
  assumes "valid (validateSqlQuery q)"
  shows "\<not> hasInjectionAttempt q \<and> startsWith (toLowerCase (trim q)) ''select''"
  using assms by (auto simp: validateSqlQuery_def split: if_splits)

lemma hasInjectionAttempt_prepareQuery:
  assumes "hasInjectionAttempt sqlQuery"
  shows "hasInjectionAttempt (prepareQuery sqlQuery)"
proof -
  from assms obtain k where k: "k \<in> set dangerousKeywords" "includesStr (toLowerCase sqlQuery) k"
    unfolding hasInjectionAttempt_iff by blast
  then have "includesStr (toLowerCase (prepareQuery sqlQuery)) k"
    by (rule keyword_survives_prepareQuery)
  with k(1) show ?thesis
    unfolding hasInjectionAttempt_iff by blast
qed

lemma safeExecuteQuery_rejects:
  assumes "hasInjectionAttempt sqlQuery"
  shows "fst (safeExecuteQuery pool sqlQuery) = []
    \<and> (\<exists>m. snd (safeExecuteQuery pool sqlQuery) = Inl (Error (''Invalid SQL query: '' @ m)))"
proof -
  have "\<not> valid (validateSqlQuery (prepareQuery sqlQuery))"
    by (rule validateSqlQuery_rejects_keyword[OF hasInjectionAttempt_prepareQuery[OF assms]])
  then show ?thesis
    by (simp add: safeExecuteQuery_def Let_def)
qed

text \<open>
  Claim C1, as the code has it. The keyword list is applied by \<open>safeExecuteQuery\<close>, not
  by \<open>generateSQL\<close>, and it is applied to the statement that is about to be executed,
  not to the raw answer of the language model. Every statement that reaches the pool
  starts with \<open>select\<close> and contains no disallowed keyword; a statement that contains one
  is refused with an error before the pool is called, whatever produced it.
\<close>

theorem no_keyword_reaches_executor:
  "(\<forall>q \<in> set (fst (safeExecuteQuery pool sqlQuery)).
      \<not> hasInjectionAttempt q \<and> startsWith (toLowerCase (trim q)) ''select'')
   \<and> (hasInjectionAttempt sqlQuery \<longrightarrow>
        fst (safeExecuteQuery pool sqlQuery) = []
        \<and> (\<exists>m. snd (safeExecuteQuery pool sqlQuery) = Inl (Error (''Invalid SQL query: '' @ m))))"
proof (intro conjI ballI impI)
  fix q
  assume "q \<in> set (fst (safeExecuteQuery pool sqlQuery))"
  then have v: "valid (validateSqlQuery q)"
    using safeExecuteQuery_passes by blast
  from valid_no_keyword[OF v] show "\<not> hasInjectionAttempt q"
    by simp
  from valid_no_keyword[OF v] show "startsWith (toLowerCase (trim q)) ''select''"
    by simp
next
  assume h: "hasInjectionAttempt sqlQuery"
  from safeExecuteQuery_rejects[OF h, of pool] show "fst (safeExecuteQuery pool sqlQuery) = []"
    by blast
  from safeExecuteQuery_rejects[OF h, of pool]
  show "\<exists>m. snd (safeExecuteQuery pool sqlQuery) = Inl (Error (''Invalid SQL query: '' @ m))"
    by blast
qed

theorem no_keyword_reaches_executor_witness:
  "fst (safeExecuteQuery (\<lambda>q. Inr ()) (''SELECT '' @ quoted ''category'' @ '' FROM '' @ quoted ''sales''))
     = [''SELECT '' @ quoted ''category'' @ '' FROM '' @ quoted ''sales'']
   \<and> \<not> hasInjectionAttempt (''SELECT '' @ quoted ''category'' @ '' FROM '' @ quoted ''sales'')
   \<and> hasInjectionAttempt (''SELECT '' @ quoted ''updated_at'' @ '' FROM '' @ quoted ''sales'')
   \<and> fst (safeExecuteQuery (\<lambda>q. Inr ()) (''SELECT '' @ quoted ''updated_at'' @ '' FROM '' @ quoted ''sales''))
     = []"
proof -
  let ?pool = "\<lambda>q. Inr () :: js_error + unit"
  let ?ok = "''SELECT '' @ quoted ''category'' @ '' FROM '' @ quoted ''sales''"
  let ?bad = "''SELECT '' @ quoted ''updated_at'' @ '' FROM '' @ quoted ''sales''"
  have p: "fst (safeExecuteQuery ?pool ?ok) = [?ok]"
    by code_simp
  then have m: "?ok \<in> set (fst (safeExecuteQuery ?pool ?ok))"
    by simp
  have b: "hasInjectionAttempt ?bad"
    by code_simp
  note t1 = no_keyword_reaches_executor[of "?pool" "?ok"]
  note t2 = no_keyword_reaches_executor[of "?pool" "?bad"]
  from t1 m have n: "\<not> hasInjectionAttempt ?ok"
    by blast
  from t2 b have r: "fst (safeExecuteQuery ?pool ?bad) = []"
    by blast
  from p n b r show ?thesis
    by (intro conjI)
qed

text \<open>
  The raw answer \<open>SELECT category FROM sales; DROP TABLE sales\<close> contains the keyword
  \<open>drop\<close>. It is not refused: \<open>generateSQL\<close> drops the text after the semicolon,
  returns the repaired first statement without a warning, and \<open>safeExecuteQuery\<close>
  hands that statement to the pool.
\<close>

theorem keyword_after_semicolon_counterexample:
  "hasInjectionAttempt ''SELECT category FROM sales; DROP TABLE sales''
   \<and> generateSQL (\<lambda>source template text. Inl (SyntaxError source)) True
        (Inr ''SELECT category FROM sales; DROP TABLE sales'') ''list the categories''
        (Some [\<lparr>col_name = None, col_column_name = Some ''category'',
                col_type = None, col_data_type = Some ''text''\<rparr>]) (Some ''sales'')
      = \<lparr>warnings = [],
         generated = Inr (''SELECT '' @ quoted ''category'' @ '' FROM '' @ quoted ''sales'')\<rparr>
   \<and> safeExecuteQuery (\<lambda>q. Inr ()) (''SELECT '' @ quoted ''category'' @ '' FROM '' @ quoted ''sales'')
      = ([''SELECT '' @ quoted ''category'' @ '' FROM '' @ quoted ''sales''], Inr ())"
proof (intro conjI)
  show "hasInjectionAttempt ''SELECT category FROM sales; DROP TABLE sales''"
    by code_simp
  show "generateSQL (\<lambda>source template text. Inl (SyntaxError source)) True
        (Inr ''SELECT category FROM sales; DROP TABLE sales'') ''list the categories''
        (Some [\<lparr>col_name = None, col_column_name = Some ''category'',
                col_type = None, col_data_type = Some ''text''\<rparr>]) (Some ''sales'')
      = \<lparr>warnings = [],
         generated = Inr (''SELECT '' @ quoted ''category'' @ '' FROM '' @ quoted ''sales'')\<rparr>"
    by code_simp
  show "safeExecuteQuery (\<lambda>q. Inr ()) (''SELECT '' @ quoted ''category'' @ '' FROM '' @ quoted ''sales'')
      = ([''SELECT '' @ quoted ''category'' @ '' FROM '' @ quoted ''sales''], Inr ())"
    by code_simp
qed

end
